theory Spec2Isabelle
  imports Main "HOL-Library.Char_ord" "HOL-Library.List_Lexorder"
begin

section \<open>A reverse proxy as an edge function\<close>

text \<open>
  The repository holds one edge function, \<^verbatim>\<open>netlify/edge-functions/proxy.ts\<close>: its default
  export receives a request, forwards it to the origin named by the environment variable
  \<^verbatim>\<open>TARGET_URL\<close> and returns the upstream response with filtered headers.

  The function is written against the web platform: \<^verbatim>\<open>Headers\<close>, \<^verbatim>\<open>URL\<close>, \<^verbatim>\<open>Response\<close>,
  \<^verbatim>\<open>JSON\<close> and \<^verbatim>\<open>fetch\<close>. The embedding keeps the platform apart from the code:
  \<^item> \<^verbatim>\<open>Headers\<close> is modelled concretely, as the Fetch standard's header list with its
    name and value checks and with iteration as the runtime of edge functions performs
    it, because every loop of the function works on it;
  \<^item> the URL parser, the JSON parser, \<^verbatim>\<open>String.prototype.trim\<close> (whose white space is
    Unicode's) and the network are parameters (a record of functions), so that a theorem
    about the handler holds for whatever they compute;
  \<^item> a thrown exception is a value: every platform call that can throw returns a sum.
  Strings are lists of \<open>char\<close> (bytes); header names and values are byte strings on the
  platform as well. Characters outside ASCII are left as they are by the case
  conversion of this model.
\<close>

subsection \<open>Strings\<close>

definition to_lower_char :: "char \<Rightarrow> char" where
  "to_lower_char c =
     (case map_of (zip ''ABCDEFGHIJKLMNOPQRSTUVWXYZ'' ''abcdefghijklmnopqrstuvwxyz'') c of
        Some d \<Rightarrow> d
      | None \<Rightarrow> c)"

definition toLowerCase :: "string \<Rightarrow> string" where
  "toLowerCase s = map to_lower_char s"

definition startsWith :: "string \<Rightarrow> string \<Rightarrow> bool" where
  "startsWith s p = (take (length p) s = p)"

text \<open>\<^verbatim>\<open>s.split(",")\<close>: the pieces between the commas, empty pieces included.\<close>

fun split_comma :: "string \<Rightarrow> string list" where
  "split_comma [] = [[]]"
| "split_comma (c # cs) =
     (if c = CHR '','' then [] # split_comma cs
      else (case split_comma cs of
              [] \<Rightarrow> [[c]]
            | w # ws \<Rightarrow> (c # w) # ws))"

text \<open>\<^verbatim>\<open>s.replace(":", "")\<close>: the first colon is removed, if there is one.\<close>

definition replace_colon :: "string \<Rightarrow> string" where
  "replace_colon s =
     takeWhile (\<lambda>c. c \<noteq> CHR '':'') s @ drop 1 (dropWhile (\<lambda>c. c \<noteq> CHR '':'') s)"

fun join_with :: "string \<Rightarrow> string list \<Rightarrow> string" where
  "join_with sep [] = []"
| "join_with sep [v] = v"
| "join_with sep (v # w # vs) = v @ sep @ join_with sep (w # vs)"

subsection \<open>Exceptions\<close>

datatype js_error = TypeError | RangeError

text \<open>What a rejected \<^verbatim>\<open>fetch\<close> throws: an \<^verbatim>\<open>Error\<close> object with its message, or any
  other value, given by its string conversion.\<close>

datatype thrown = ErrorObject string | OtherValue string

subsection \<open>The header list of the Fetch standard\<close>

type_synonym header_list = "(string \<times> string) list"

text \<open>A header name is a token: one or more of these characters.\<close>

definition tchars :: string where
  "tchars = ''!#$%&'*+-.^_`|~0123456789abcdefghijklmnopqrstuvwxyzABCDEFGHIJKLMNOPQRSTUVWXYZ''"

definition is_tchar :: "char \<Rightarrow> bool" where
  "is_tchar c = (c \<in> set tchars)"

definition header_name :: "string \<Rightarrow> bool" where
  "header_name n = (n \<noteq> [] \<and> list_all is_tchar n)"

definition is_http_whitespace :: "char \<Rightarrow> bool" where
  "is_http_whitespace c = (c \<in> set [CHR 0x09, CHR 0x0A, CHR 0x0D, CHR 0x20])"

definition normalize_value :: "string \<Rightarrow> string" where
  "normalize_value v =
     rev (dropWhile is_http_whitespace (rev (dropWhile is_http_whitespace v)))"

definition header_value :: "string \<Rightarrow> bool" where
  "header_value v =
     (normalize_value v = v \<and> list_all (\<lambda>c. c \<notin> set [CHR 0x00, CHR 0x0A, CHR 0x0D]) v)"

text \<open>The values of a name, in list order; names match without regard to ASCII case.\<close>

definition header_values :: "header_list \<Rightarrow> string \<Rightarrow> string list" where
  "header_values h name =
     map snd (filter (\<lambda>kv. toLowerCase (fst kv) = toLowerCase name) h)"

text \<open>Getting a name: \<^verbatim>\<open>null\<close> when the list has none, else its values joined by
  a comma and a space.\<close>

definition get_header :: "header_list \<Rightarrow> string \<Rightarrow> string option" where
  "get_header h name =
     (case header_values h name of
        [] \<Rightarrow> None
      | v # vs \<Rightarrow> Some (join_with '', '' (v # vs)))"

definition has_header :: "header_list \<Rightarrow> string \<Rightarrow> bool" where
  "has_header h name = (header_values h name \<noteq> [])"

text \<open>Setting a header: the first header of that name takes the value and the others
  are removed; a new name is appended.\<close>

fun set_header :: "header_list \<Rightarrow> string \<Rightarrow> string \<Rightarrow> header_list" where
  "set_header [] name v = [(name, v)]"
| "set_header (kv # h) name v =
     (if toLowerCase (fst kv) = toLowerCase name
      then (fst kv, v) # filter (\<lambda>kv'. toLowerCase (fst kv') \<noteq> toLowerCase name) h
      else kv # set_header h name v)"

text \<open>The methods of \<^verbatim>\<open>Headers\<close>: each throws a \<^verbatim>\<open>TypeError\<close> on a name that is not a
  token; \<^verbatim>\<open>set\<close> first strips the value's surrounding white space and throws on a value
  that still holds a NUL, a line feed or a carriage return.\<close>

definition Headers_get :: "header_list \<Rightarrow> string \<Rightarrow> js_error + string option" where
  "Headers_get h name = (if header_name name then Inr (get_header h name) else Inl TypeError)"

definition Headers_has :: "header_list \<Rightarrow> string \<Rightarrow> js_error + bool" where
  "Headers_has h name = (if header_name name then Inr (has_header h name) else Inl TypeError)"

definition Headers_set :: "header_list \<Rightarrow> string \<Rightarrow> string \<Rightarrow> js_error + header_list" where
  "Headers_set h name v =
     (if header_name name \<and> header_value (normalize_value v)
      then Inr (set_header h name (normalize_value v))
      else Inl TypeError)"

text \<open>Iteration (\<^verbatim>\<open>forEach\<close>, \<^verbatim>\<open>entries\<close>), as the runtime of the edge functions does it: the
  lower-cased names in ascending order, each once with its values combined, except
  \<^verbatim>\<open>set-cookie\<close>, whose values come one by one. The runtime combines the values of a name
  as it meets them: the next value is appended to the value combined so far, after a
  comma and a space, when that value is not empty, and takes its place when it is
  empty. The combined value is therefore what \<^verbatim>\<open>get\<close> reports, except for a name whose
  first values are empty: iteration leaves those out (values \<open>[[], ''2'']\<close> give \<open>'', 2''\<close>
  with \<^verbatim>\<open>get\<close> and \<open>''2''\<close> here).\<close>

definition combined_value :: "string list \<Rightarrow> string" where
  "combined_value vs = foldl (\<lambda>acc v. if acc = [] then v else acc @ '', '' @ v) [] vs"

definition Headers_entries :: "header_list \<Rightarrow> (string \<times> string) list" where
  "Headers_entries h =
     concat (map (\<lambda>name.
         if name = ''set-cookie'' then map (Pair name) (header_values h name)
         else [(name, combined_value (header_values h name))])
       (sort (remdups (map (\<lambda>kv. toLowerCase (fst kv)) h))))"

subsection \<open>JSON values\<close>

text \<open>A parsed JSON value. A number is carried by its string conversion, which is all
  the function ever asks of it; an object by its own enumerable properties in
  enumeration order.\<close>

datatype json =
    JNull
  | JBool bool
  | JNum string
  | JStr string
  | JArr "json list"
  | JObj "(string \<times> json) list"

fun digits :: "nat \<Rightarrow> string" where
  "digits n =
     (if n < 10 then [''0123456789'' ! n]
      else digits (n div 10) @ [''0123456789'' ! (n mod 10)])"

declare digits.simps [simp del]

text \<open>\<^verbatim>\<open>String(v)\<close>, the conversion \<^verbatim>\<open>Headers.set\<close> applies to a value that is not a
  string.\<close>

fun js_String :: "json \<Rightarrow> string" where
  "js_String JNull = ''null''"
| "js_String (JBool b) = (if b then ''true'' else ''false'')"
| "js_String (JNum s) = s"
| "js_String (JStr s) = s"
| "js_String (JArr xs) =
     join_with '','' (map (\<lambda>x. if x = JNull then [] else js_String x) xs)"
| "js_String (JObj kvs) = ''[object Object]''"

text \<open>\<^verbatim>\<open>Object.entries(v)\<close>: throws on \<^verbatim>\<open>null\<close>; a boolean or a number has no own
  property; a string and an array have their indices.\<close>

definition Object_entries :: "json \<Rightarrow> js_error + (string \<times> json) list" where
  "Object_entries v =
     (case v of
        JNull \<Rightarrow> Inl TypeError
      | JBool b \<Rightarrow> Inr []
      | JNum s \<Rightarrow> Inr []
      | JStr s \<Rightarrow> Inr (map (\<lambda>i. (digits i, JStr [s ! i])) [0..<length s])
      | JArr xs \<Rightarrow> Inr (map (\<lambda>i. (digits i, xs ! i)) [0..<length xs])
      | JObj kvs \<Rightarrow> Inr kvs)"

text \<open>\<^verbatim>\<open>JSON.stringify\<close> of an object literal whose values are strings, the only use
  the function makes of it.\<close>

definition json_escape :: "char \<Rightarrow> string" where
  "json_escape c =
     (if c = CHR 0x22 then [CHR 0x5C, CHR 0x22]
      else if c = CHR 0x5C then [CHR 0x5C, CHR 0x5C]
      else if c = CHR 0x08 then [CHR 0x5C, CHR ''b'']
      else if c = CHR 0x0C then [CHR 0x5C, CHR ''f'']
      else if c = CHR 0x0A then [CHR 0x5C, CHR ''n'']
      else if c = CHR 0x0D then [CHR 0x5C, CHR ''r'']
      else if c = CHR 0x09 then [CHR 0x5C, CHR ''t'']
      else if (of_char c :: nat) < 32 then
        [CHR 0x5C, CHR ''u'', CHR ''0'', CHR ''0'',
         ''0123456789abcdef'' ! (of_char c div 16), ''0123456789abcdef'' ! (of_char c mod 16)]
      else [c])"

definition json_quote :: "string \<Rightarrow> string" where
  "json_quote s = [CHR 0x22] @ concat (map json_escape s) @ [CHR 0x22]"

definition JSON_stringify :: "(string \<times> string) list \<Rightarrow> string" where
  "JSON_stringify obj =
     ''{'' @ join_with '','' (map (\<lambda>kv. json_quote (fst kv) @ '':'' @ json_quote (snd kv)) obj)
       @ ''}''"

subsection \<open>Platform objects\<close>

text \<open>A \<^verbatim>\<open>URL\<close> object, by the properties the function reads.\<close>

record url =
  href :: string
  origin :: string
  protocol :: string
  host :: string
  pathname :: string
  search :: string

record request =
  req_method :: string
  req_url :: string
  req_headers :: header_list
  req_body :: "string option"

text \<open>The second argument of the handler; \<^verbatim>\<open>context.ip\<close> is the client's address.\<close>

record edge_context =
  ip :: string

record response =
  status :: nat
  statusText :: string
  headers :: header_list
  body :: "string option"

text \<open>The argument of one \<^verbatim>\<open>fetch\<close> call.\<close>

record fetch_call =
  fetch_url :: string
  fetch_method :: string
  fetch_headers :: header_list
  fetch_body :: "string option"
  fetch_redirect :: string

text \<open>The platform: \<^verbatim>\<open>new URL(s)\<close>, \<^verbatim>\<open>new URL(s, base)\<close> and \<^verbatim>\<open>JSON.parse(s)\<close> (\<open>None\<close>
  when they throw), \<^verbatim>\<open>s.trim()\<close>, and \<^verbatim>\<open>fetch\<close> (\<open>Inl\<close> when the promise rejects).\<close>

record platform =
  URL_new :: "string \<Rightarrow> url option"
  URL_new_base :: "string \<Rightarrow> url \<Rightarrow> url option"
  JSON_parse :: "string \<Rightarrow> json option"
  String_trim :: "string \<Rightarrow> string"
  fetch :: "fetch_call \<Rightarrow> thrown + response"

text \<open>\<^verbatim>\<open>new Response(body, {status, statusText, headers})\<close>: a \<^verbatim>\<open>RangeError\<close> for a status
  outside 200..599, a \<^verbatim>\<open>TypeError\<close> for a body with a null-body status; a status text
  left undefined is the empty string. The headers are those of the initialiser.\<close>

definition null_body_status :: "nat \<Rightarrow> bool" where
  "null_body_status s = (s \<in> set [101, 103, 204, 205, 304])"

definition new_Response ::
  "string option \<Rightarrow> nat \<Rightarrow> string option \<Rightarrow> header_list \<Rightarrow> js_error + response" where
  "new_Response b st txt hs =
     (if st < 200 \<or> 599 < st then Inl RangeError
      else if b \<noteq> None \<and> null_body_status st then Inl TypeError
      else Inr \<lparr>status = st,
                statusText = (case txt of None \<Rightarrow> [] | Some t \<Rightarrow> t),
                headers = hs,
                body = b\<rparr>)"

subsection \<open>Configuration\<close>

text \<open>The environment, \<^verbatim>\<open>Netlify.env.get\<close>: \<open>None\<close> for a variable that is not set.\<close>

record environment =
  env_TARGET_URL :: "string option"
  env_ALLOWED_HEADERS :: "string option"
  env_PROXY_DEBUG :: "string option"
  env_CUSTOM_HEADERS :: "string option"

text \<open>\<^verbatim>\<open>a || b\<close> on a string that may be undefined: \<open>b\<close> when \<open>a\<close> is undefined or empty.\<close>

definition or_default :: "string option \<Rightarrow> string \<Rightarrow> string" where
  "or_default a b = (case a of None \<Rightarrow> b | Some s \<Rightarrow> if s = [] then b else s)"

definition TARGET_URL :: "environment \<Rightarrow> string option" where
  "TARGET_URL env = env_TARGET_URL env"

definition ALLOWED_HEADERS :: "environment \<Rightarrow> string" where
  "ALLOWED_HEADERS env = or_default (env_ALLOWED_HEADERS env) []"

definition DEBUG :: "environment \<Rightarrow> bool" where
  "DEBUG env = (env_PROXY_DEBUG env = Some ''true'')"

definition CUSTOM_HEADERS :: "environment \<Rightarrow> string" where
  "CUSTOM_HEADERS env = or_default (env_CUSTOM_HEADERS env) ''{}''"

definition DEFAULT_REQUEST_HEADERS :: "string list" where
  "DEFAULT_REQUEST_HEADERS =
     [''authorization'', ''content-type'', ''accept'', ''accept-encoding'',
      ''accept-language'', ''origin'', ''cache-control'', ''x-requested-with'',
      ''x-api-key'', ''x-auth-token'']"

definition DEFAULT_RESPONSE_HEADERS :: "string list" where
  "DEFAULT_RESPONSE_HEADERS =
     [''content-type'', ''content-length'', ''content-range'', ''accept-ranges'',
      ''cache-control'', ''etag'', ''last-modified'', ''location'']"

definition getAllowedRequestHeaders :: "platform \<Rightarrow> environment \<Rightarrow> string list" where
  "getAllowedRequestHeaders P env =
     (if ALLOWED_HEADERS env = [] then DEFAULT_REQUEST_HEADERS
      else map (\<lambda>h. toLowerCase (String_trim P h)) (split_comma (ALLOWED_HEADERS env)))"

text \<open>\<^verbatim>\<open>parseCustomHeaders\<close> returns whatever \<^verbatim>\<open>JSON.parse\<close> returns, and the empty object
  when it throws.\<close>

definition parseCustomHeaders :: "platform \<Rightarrow> environment \<Rightarrow> json" where
  "parseCustomHeaders P env =
     (case JSON_parse P (CUSTOM_HEADERS env) of
        Some v \<Rightarrow> v
      | None \<Rightarrow> JObj [])"

subsection \<open>The handler\<close>

text \<open>The two loops \<^verbatim>\<open>for (const header of names) { const value = src.get(header);
  if (value) dst.set(header, value) }\<close>, over the allowed request headers and over the
  standard response headers.\<close>

fun copy_listed :: "string list \<Rightarrow> header_list \<Rightarrow> header_list \<Rightarrow> js_error + header_list" where
  "copy_listed [] src dst = Inr dst"
| "copy_listed (header # rest) src dst =
     (case Headers_get src header of
        Inl e \<Rightarrow> Inl e
      | Inr None \<Rightarrow> copy_listed rest src dst
      | Inr (Some v) \<Rightarrow>
          if v = [] then copy_listed rest src dst
          else (case Headers_set dst header v of
                  Inl e \<Rightarrow> Inl e
                | Inr dst' \<Rightarrow> copy_listed rest src dst'))"

text \<open>The two loops \<^verbatim>\<open>src.forEach((value, key) => { if
  (key.toLowerCase().startsWith("x-") && !dst.has(key)) dst.set(key, value) })\<close>, run over
  the entries of the source.\<close>

fun copy_x_prefixed :: "(string \<times> string) list \<Rightarrow> header_list \<Rightarrow> js_error + header_list" where
  "copy_x_prefixed [] dst = Inr dst"
| "copy_x_prefixed (kv # rest) dst =
     (if startsWith (toLowerCase (fst kv)) ''x-'' then
        (case Headers_has dst (fst kv) of
           Inl e \<Rightarrow> Inl e
         | Inr True \<Rightarrow> copy_x_prefixed rest dst
         | Inr False \<Rightarrow>
             (case Headers_set dst (fst kv) (snd kv) of
                Inl e \<Rightarrow> Inl e
              | Inr dst' \<Rightarrow> copy_x_prefixed rest dst'))
      else copy_x_prefixed rest dst)"

text \<open>Lines 113 to 135: the headers of the upstream call.\<close>

definition buildRequestHeaders ::
  "string list \<Rightarrow> header_list \<Rightarrow> string \<Rightarrow> url \<Rightarrow> url \<Rightarrow> js_error + header_list" where
  "buildRequestHeaders allowedHeaders inbound client_ip url targetBaseUrl =
     (case copy_listed allowedHeaders inbound [] of
        Inl e \<Rightarrow> Inl e
      | Inr h1 \<Rightarrow>
     (case copy_x_prefixed (Headers_entries inbound) h1 of
        Inl e \<Rightarrow> Inl e
      | Inr h2 \<Rightarrow>
     (case Headers_set h2 ''X-Forwarded-For'' client_ip of
        Inl e \<Rightarrow> Inl e
      | Inr h3 \<Rightarrow>
     (case Headers_set h3 ''X-Forwarded-Proto'' (replace_colon (protocol url)) of
        Inl e \<Rightarrow> Inl e
      | Inr h4 \<Rightarrow>
     (case Headers_set h4 ''X-Forwarded-Host'' (host url) of
        Inl e \<Rightarrow> Inl e
      | Inr h5 \<Rightarrow> Headers_set h5 ''Host'' (host targetBaseUrl))))))"

text \<open>\<^verbatim>\<open>for (const [key, value] of Object.entries(customHeaders))
  responseHeaders.set(key, value)\<close>.\<close>

fun set_custom :: "(string \<times> json) list \<Rightarrow> header_list \<Rightarrow> js_error + header_list" where
  "set_custom [] dst = Inr dst"
| "set_custom (kv # rest) dst =
     (case Headers_set dst (fst kv) (js_String (snd kv)) of
        Inl e \<Rightarrow> Inl e
      | Inr dst' \<Rightarrow> set_custom rest dst')"

text \<open>\<^verbatim>\<open>if (!responseHeaders.has(name)) responseHeaders.set(name, value)\<close>.\<close>

definition set_if_absent :: "string \<Rightarrow> string \<Rightarrow> header_list \<Rightarrow> js_error + header_list" where
  "set_if_absent name v dst =
     (case Headers_has dst name of
        Inl e \<Rightarrow> Inl e
      | Inr True \<Rightarrow> Inr dst
      | Inr False \<Rightarrow> Headers_set dst name v)"

text \<open>Lines 167 to 199: the headers of the client's response, before the redirect
  step. The second argument is what \<^verbatim>\<open>parseCustomHeaders()\<close> returned.\<close>

definition buildResponseHeaders :: "header_list \<Rightarrow> json \<Rightarrow> js_error + header_list" where
  "buildResponseHeaders upstream customHeaders =
     (case copy_listed DEFAULT_RESPONSE_HEADERS upstream [] of
        Inl e \<Rightarrow> Inl e
      | Inr h1 \<Rightarrow>
     (case copy_x_prefixed (Headers_entries upstream) h1 of
        Inl e \<Rightarrow> Inl e
      | Inr h2 \<Rightarrow>
     (case Object_entries customHeaders of
        Inl e \<Rightarrow> Inl e
      | Inr kvs \<Rightarrow>
     (case set_custom kvs h2 of
        Inl e \<Rightarrow> Inl e
      | Inr h3 \<Rightarrow>
     (case set_if_absent ''Access-Control-Allow-Origin'' ''*'' h3 of
        Inl e \<Rightarrow> Inl e
      | Inr h4 \<Rightarrow>
     (case set_if_absent ''Access-Control-Allow-Methods''
             ''GET, POST, PUT, DELETE, OPTIONS, HEAD, PATCH'' h4 of
        Inl e \<Rightarrow> Inl e
      | Inr h5 \<Rightarrow>
        set_if_absent ''Access-Control-Allow-Headers''
          ''Authorization, Content-Type, X-Requested-With, X-API-Key, X-Auth-Token'' h5))))))"

text \<open>Lines 203 to 221. The body of the \<^verbatim>\<open>try\<close> is \<open>rewrite_location\<close>; when it throws
  (the location does not parse), the \<^verbatim>\<open>catch\<close> sets the location as it came.\<close>

definition rewrite_location ::
  "platform \<Rightarrow> string \<Rightarrow> url \<Rightarrow> url \<Rightarrow> header_list \<Rightarrow> js_error + header_list" where
  "rewrite_location P location url targetBaseUrl responseHeaders =
     (case URL_new P location of
        None \<Rightarrow> Inl TypeError
      | Some locUrl \<Rightarrow>
          if origin locUrl = origin targetBaseUrl
          then Headers_set responseHeaders ''Location''
                 (origin url @ pathname locUrl @ search locUrl)
          else Headers_set responseHeaders ''Location'' location)"

definition handleRedirect ::
  "platform \<Rightarrow> response \<Rightarrow> url \<Rightarrow> url \<Rightarrow> header_list \<Rightarrow> js_error + header_list" where
  "handleRedirect P upstream url targetBaseUrl responseHeaders =
     (if 300 \<le> status upstream \<and> status upstream < 400 then
        (case Headers_get (headers upstream) ''location'' of
           Inl e \<Rightarrow> Inl e
         | Inr None \<Rightarrow> Inr responseHeaders
         | Inr (Some location) \<Rightarrow>
             if location = [] then Inr responseHeaders
             else (case rewrite_location P location url targetBaseUrl responseHeaders of
                     Inr hs \<Rightarrow> Inr hs
                   | Inl e \<Rightarrow> Headers_set responseHeaders ''Location'' location))
      else Inr responseHeaders)"

text \<open>\<^verbatim>\<open>response.statusStatusText\<close>: a \<^verbatim>\<open>Response\<close> has no property of that name, so the
  access gives \<^verbatim>\<open>undefined\<close> whatever the response is.\<close>

definition statusStatusText :: "response \<Rightarrow> string option" where
  "statusStatusText r = None"

text \<open>What one run of the handler does: the response it returns or the exception it
  throws, and the \<^verbatim>\<open>fetch\<close> calls it made, in order.\<close>

datatype outcome = Returned response | Threw js_error

definition respond :: "js_error + response \<Rightarrow> outcome" where
  "respond r = (case r of Inl e \<Rightarrow> Threw e | Inr resp \<Rightarrow> Returned resp)"

definition message_of :: "thrown \<Rightarrow> string" where
  "message_of t = (case t of ErrorObject m \<Rightarrow> m | OtherValue s \<Rightarrow> s)"

text \<open>Lines 165 to 230: from the upstream response to the client's.\<close>

definition buildResponse ::
  "platform \<Rightarrow> environment \<Rightarrow> url \<Rightarrow> url \<Rightarrow> response \<Rightarrow> js_error + response" where
  "buildResponse P env url targetBaseUrl upstream =
     (case buildResponseHeaders (headers upstream) (parseCustomHeaders P env) of
        Inl e \<Rightarrow> Inl e
      | Inr h \<Rightarrow>
     (case handleRedirect P upstream url targetBaseUrl h of
        Inl e \<Rightarrow> Inl e
      | Inr responseHeaders \<Rightarrow>
          new_Response (body upstream) (status upstream) (statusStatusText upstream)
            responseHeaders))"

text \<open>Lines 104 to 163: the upstream call. The call is made once; a rejection becomes
  the 502 response.\<close>

definition forward ::
  "platform \<Rightarrow> environment \<Rightarrow> string \<Rightarrow> url \<Rightarrow> request \<Rightarrow> edge_context \<Rightarrow>
     outcome \<times> fetch_call list" where
  "forward P env target targetBaseUrl rq ctx =
     (case URL_new P (req_url rq) of
        None \<Rightarrow> (Threw TypeError, [])
      | Some url \<Rightarrow>
     (case URL_new_base P (pathname url @ search url) targetBaseUrl of
        None \<Rightarrow> (Threw TypeError, [])
      | Some targetUrl \<Rightarrow>
     (case buildRequestHeaders (getAllowedRequestHeaders P env) (req_headers rq) (ip ctx)
             url targetBaseUrl of
        Inl e \<Rightarrow> (Threw e, [])
      | Inr hs \<Rightarrow>
          (let call = \<lparr>fetch_url = href targetUrl, fetch_method = req_method rq,
                        fetch_headers = hs, fetch_body = req_body rq,
                        fetch_redirect = ''manual''\<rparr>
           in (case fetch P call of
                 Inl error \<Rightarrow>
                   (respond (new_Response
                      (Some (JSON_stringify
                         [(''error'', ''Proxy Error''),
                          (''message'', ''Failed to connect to target server''),
                          (''target'', target),
                          (''details'', message_of error)]))
                      502 None [(''Content-Type'', ''application/json'')]),
                    [call])
               | Inr upstream \<Rightarrow>
                   (respond (buildResponse P env url targetBaseUrl upstream), [call]))))))"

text \<open>The default export. \<^verbatim>\<open>log\<close> only writes to the console, and only when
  \<^verbatim>\<open>PROXY_DEBUG\<close> is \<^verbatim>\<open>true\<close>; it has no part in the result and is left out.\<close>

definition handler ::
  "platform \<Rightarrow> environment \<Rightarrow> request \<Rightarrow> edge_context \<Rightarrow> outcome \<times> fetch_call list" where
  "handler P env rq ctx =
     (case TARGET_URL env of
        None \<Rightarrow>
          (respond (new_Response
             (Some (JSON_stringify
                [(''error'', ''Configuration Error''),
                 (''message'', ''TARGET_URL environment variable is not set'')]))
             500 None [(''Content-Type'', ''application/json'')]), [])
      | Some target \<Rightarrow>
          if target = [] then
            (respond (new_Response
               (Some (JSON_stringify
                  [(''error'', ''Configuration Error''),
                   (''message'', ''TARGET_URL environment variable is not set'')]))
               500 None [(''Content-Type'', ''application/json'')]), [])
          else
            (case URL_new P target of
               None \<Rightarrow>
                 (respond (new_Response
                    (Some (JSON_stringify
                       [(''error'', ''Configuration Error''),
                        (''message'', ''Invalid TARGET_URL: '' @ target)]))
                    500 None [(''Content-Type'', ''application/json'')]), [])
             | Some targetBaseUrl \<Rightarrow> forward P env target targetBaseUrl rq ctx))"

subsection \<open>A reference platform\<close>

text \<open>The theorems below hold for every platform. To run the handler on concrete
  requests, here is a small platform: a URL parser and a JSON parser for the plain
  inputs the examples use, and the network as a parameter. The URL parser takes
  \<^verbatim>\<open>http://host/path?query#fragment\<close> and the same with \<^verbatim>\<open>https\<close>, where the host is made of
  lower-case letters and single dots and there is no port, user, escape, backslash or
  dot segment; the JSON parser takes JSON without string escapes, whose numbers are
  naturals of at most fifteen digits and whose objects have distinct keys, none of them
  empty or made of digits. On those inputs they return what the platform's parsers return; they
  reject every other input, which the platform's parsers need not.\<close>

definition plain_url_char :: "char \<Rightarrow> bool" where
  "plain_url_char c =
     (c \<in> set ''abcdefghijklmnopqrstuvwxyzABCDEFGHIJKLMNOPQRSTUVWXYZ0123456789-._~/?#=&:'')"

definition plain_host :: "string \<Rightarrow> bool" where
  "plain_host h =
     (h \<noteq> [] \<and> list_all (\<lambda>c. c \<in> set ''abcdefghijklmnopqrstuvwxyz.'') h
        \<and> hd h \<noteq> CHR ''.'' \<and> last h \<noteq> CHR ''.''
        \<and> list_all (\<lambda>p. p \<noteq> (CHR ''.'', CHR ''.'')) (zip h (tl h)))"

fun dot_segments :: "string \<Rightarrow> bool" where
  "dot_segments (a # b # cs) =
     ((a = CHR ''/'' \<and> b = CHR ''.'' \<and> takeWhile (\<lambda>c. c = CHR ''.'') cs = takeWhile (\<lambda>c. c \<noteq> CHR ''/'') cs)
        \<or> dot_segments (b # cs))"
| "dot_segments cs = False"

definition ref_URL_new :: "string \<Rightarrow> url option" where
  "ref_URL_new s =
     (let scheme = takeWhile (\<lambda>c. c \<noteq> CHR '':'') s;
          rest = dropWhile (\<lambda>c. c \<noteq> CHR '':'') s;
          authority = takeWhile (\<lambda>c. c \<notin> set ''/?#'') (drop 3 rest);
          tail = dropWhile (\<lambda>c. c \<notin> set ''/?#'') (drop 3 rest);
          path = (if takeWhile (\<lambda>c. c \<notin> set ''?#'') tail = [] then ''/''
                  else takeWhile (\<lambda>c. c \<notin> set ''?#'') tail);
          query = takeWhile (\<lambda>c. c \<noteq> CHR ''#'') (dropWhile (\<lambda>c. c \<notin> set ''?#'') tail);
          fragment = dropWhile (\<lambda>c. c \<noteq> CHR ''#'') tail
      in if scheme \<in> set [''http'', ''https''] \<and> take 3 rest = ''://'' \<and> plain_host authority
            \<and> list_all plain_url_char tail \<and> \<not> dot_segments path
         then Some \<lparr>href = scheme @ ''://'' @ authority @ path @ query @ fragment,
                     origin = scheme @ ''://'' @ authority,
                     protocol = scheme @ '':'',
                     host = authority,
                     pathname = path,
                     search = (if query = ''?'' then [] else query)\<rparr>
         else None)"

text \<open>\<^verbatim>\<open>new URL(input, base)\<close>, as the URL standard's relative states resolve an input
  against an \<^verbatim>\<open>http\<close> or \<^verbatim>\<open>https\<close> base: an input that starts with two slashes takes
  only the scheme of the base and names its own host; an input that starts with one
  slash takes scheme and host of the base and replaces path and query; an input with
  a scheme of its own ignores the base.\<close>

definition ref_URL_new_base :: "string \<Rightarrow> url \<Rightarrow> url option" where
  "ref_URL_new_base input base =
     (if startsWith input ''//'' then ref_URL_new (protocol base @ input)
      else if startsWith input ''/'' then ref_URL_new (protocol base @ ''//'' @ host base @ input)
      else ref_URL_new input)"

definition is_json_space :: "char \<Rightarrow> bool" where
  "is_json_space c = (c \<in> set [CHR 0x09, CHR 0x0A, CHR 0x0D, CHR 0x20])"

fun json_string_tail :: "string \<Rightarrow> (string \<times> string) option" where
  "json_string_tail [] = None"
| "json_string_tail (c # cs) =
     (if c = CHR 0x22 then Some ([], cs)
      else if c = CHR 0x5C \<or> (of_char c :: nat) < 32 then None
      else (case json_string_tail cs of
              None \<Rightarrow> None
            | Some (s, rest) \<Rightarrow> Some (c # s, rest)))"

definition is_digit :: "char \<Rightarrow> bool" where
  "is_digit c = (c \<in> set ''0123456789'')"

fun json_value :: "nat \<Rightarrow> string \<Rightarrow> (json \<times> string) option"
  and json_elements :: "nat \<Rightarrow> string \<Rightarrow> (json list \<times> string) option"
  and json_members :: "nat \<Rightarrow> string \<Rightarrow> ((string \<times> json) list \<times> string) option" where
  "json_value 0 s = None"
| "json_value (Suc n) s =
     (case dropWhile is_json_space s of
        [] \<Rightarrow> None
      | c # cs \<Rightarrow>
          if c = CHR 0x22 then
            (case json_string_tail cs of None \<Rightarrow> None | Some (t, rest) \<Rightarrow> Some (JStr t, rest))
          else if c = CHR ''['' then
            (case dropWhile is_json_space cs of
               [] \<Rightarrow> None
             | d # ds \<Rightarrow>
                 if d = CHR '']'' then Some (JArr [], ds)
                 else (case json_elements n (d # ds) of
                         None \<Rightarrow> None
                       | Some (xs, rest) \<Rightarrow> Some (JArr xs, rest)))
          else if c = CHR ''{'' then
            (case dropWhile is_json_space cs of
               [] \<Rightarrow> None
             | d # ds \<Rightarrow>
                 if d = CHR ''}'' then Some (JObj [], ds)
                 else (case json_members n (d # ds) of
                         None \<Rightarrow> None
                       | Some (kvs, rest) \<Rightarrow> Some (JObj kvs, rest)))
          else if startsWith (c # cs) ''null'' then Some (JNull, drop 4 (c # cs))
          else if startsWith (c # cs) ''true'' then Some (JBool True, drop 4 (c # cs))
          else if startsWith (c # cs) ''false'' then Some (JBool False, drop 5 (c # cs))
          else if is_digit c \<and> (if c = CHR ''0'' then takeWhile is_digit cs = [] else True)
                  \<and> length (takeWhile is_digit cs) < 15
                  \<and> (case dropWhile is_digit cs of [] \<Rightarrow> True | d # ds \<Rightarrow> d \<notin> set ''.eE'')
          then Some (JNum (c # takeWhile is_digit cs), dropWhile is_digit cs)
          else None)"
| "json_elements 0 s = None"
| "json_elements (Suc n) s =
     (case json_value n s of
        None \<Rightarrow> None
      | Some (x, rest) \<Rightarrow>
          (case dropWhile is_json_space rest of
             [] \<Rightarrow> None
           | c # cs \<Rightarrow>
               if c = CHR '']'' then Some ([x], cs)
               else if c = CHR '','' then
                 (case json_elements n cs of
                    None \<Rightarrow> None
                  | Some (xs, rest') \<Rightarrow> Some (x # xs, rest'))
               else None))"
| "json_members 0 s = None"
| "json_members (Suc n) s =
     (case dropWhile is_json_space s of
        [] \<Rightarrow> None
      | q # qs \<Rightarrow>
          if q \<noteq> CHR 0x22 then None
          else (case json_string_tail qs of
                  None \<Rightarrow> None
                | Some (k, rest) \<Rightarrow>
                    (case dropWhile is_json_space rest of
                       [] \<Rightarrow> None
                     | c # cs \<Rightarrow>
                         if c \<noteq> CHR '':'' then None
                         else (case json_value n cs of
                                 None \<Rightarrow> None
                               | Some (v, rest') \<Rightarrow>
                                   (case dropWhile is_json_space rest' of
                                      [] \<Rightarrow> None
                                    | d # ds \<Rightarrow>
                                        if d = CHR ''}'' then Some ([(k, v)], ds)
                                        else if d = CHR '','' then
                                          (case json_members n ds of
                                             None \<Rightarrow> None
                                           | Some (kvs, rest'') \<Rightarrow> Some ((k, v) # kvs, rest''))
                                        else None)))))"

fun plain_keys :: "json \<Rightarrow> bool" where
  "plain_keys (JArr xs) = list_all plain_keys xs"
| "plain_keys (JObj kvs) =
     (distinct (map fst kvs) \<and> list_all (\<lambda>kv. \<not> list_all is_digit (fst kv)) kvs
        \<and> list_all (\<lambda>kv. plain_keys (snd kv)) kvs)"
| "plain_keys v = True"

definition ref_JSON_parse :: "string \<Rightarrow> json option" where
  "ref_JSON_parse s =
     (case json_value (Suc (length s)) s of
        None \<Rightarrow> None
      | Some (v, rest) \<Rightarrow>
          if dropWhile is_json_space rest = [] \<and> plain_keys v then Some v else None)"

text \<open>\<^verbatim>\<open>s.trim()\<close> on strings of characters below 256, where the white space and the line
  terminators of the language are tab, line feed, vertical tab, form feed, carriage
  return, space and no-break space.\<close>

definition is_js_space :: "char \<Rightarrow> bool" where
  "is_js_space c =
     (c \<in> set [CHR 0x09, CHR 0x0A, CHR 0x0B, CHR 0x0C, CHR 0x0D, CHR 0x20, CHR 0xA0])"

definition ref_trim :: "string \<Rightarrow> string" where
  "ref_trim s = rev (dropWhile is_js_space (rev (dropWhile is_js_space s)))"

definition reference_platform :: "(fetch_call \<Rightarrow> thrown + response) \<Rightarrow> platform" where
  "reference_platform network =
     \<lparr>URL_new = ref_URL_new, URL_new_base = ref_URL_new_base,
      JSON_parse = ref_JSON_parse, String_trim = ref_trim, fetch = network\<rparr>"

subsection \<open>Words for the statements\<close>

text \<open>A name is listed when some name of the list matches it without regard to case. A
  value is truthy, as \<^verbatim>\<open>if (value)\<close> tests it, when it is neither \<^verbatim>\<open>null\<close> nor the empty
  string. The next three name the entries of one header name, the entry that the
  \<^verbatim>\<open>x-\<close> loop copies for a name, and the value that iteration reports for a name other
  than \<^verbatim>\<open>set-cookie\<close> (\<open>None\<close> when the list has no such header). A string is clean when it has no NUL, line feed or
  carriage return; a header list is well formed when its names are tokens and its values
  header values, as in every \<^verbatim>\<open>Headers\<close> object of the platform.\<close>

definition listed :: "string list \<Rightarrow> string \<Rightarrow> bool" where
  "listed names n = (toLowerCase n \<in> set (map toLowerCase names))"

definition truthy :: "string option \<Rightarrow> bool" where
  "truthy v = (v \<noteq> None \<and> v \<noteq> Some [])"

definition x_key :: "string \<Rightarrow> string \<times> string \<Rightarrow> bool" where
  "x_key m kv = (toLowerCase (fst kv) = toLowerCase m \<and> startsWith (toLowerCase (fst kv)) ''x-'')"

definition entries_of :: "header_list \<Rightarrow> string \<Rightarrow> (string \<times> string) list" where
  "entries_of h name =
     (if name = ''set-cookie'' then map (Pair name) (header_values h name)
      else [(name, combined_value (header_values h name))])"

definition entry_value :: "header_list \<Rightarrow> string \<Rightarrow> string option" where
  "entry_value h name =
     (if has_header h name then Some (combined_value (header_values h name)) else None)"

definition clean :: "string \<Rightarrow> bool" where
  "clean v = list_all (\<lambda>c. c \<notin> set [CHR 0x00, CHR 0x0A, CHR 0x0D]) v"

definition headers_ok :: "header_list \<Rightarrow> bool" where
  "headers_ok h = list_all (\<lambda>kv. header_name (fst kv) \<and> header_value (snd kv)) h"

subsection \<open>Example inputs\<close>

text \<open>A proxy at \<^verbatim>\<open>proxy.example\<close> in front of \<^verbatim>\<open>https://backend.example/base\<close>, a request with an
  allowed header, a cookie, a custom header, a spoofed forwarding header and an allowed
  header with an empty value, and the upstream call it leads to. The network either
  refuses the call, answers with a redirect to the target that carries a body, or
  answers with a bare redirect to a given location.\<close>

definition example_env :: environment where
  "example_env = \<lparr>env_TARGET_URL = Some ''https://backend.example/base'',
     env_ALLOWED_HEADERS = None, env_PROXY_DEBUG = None, env_CUSTOM_HEADERS = None\<rparr>"

definition example_request :: request where
  "example_request = \<lparr>req_method = ''GET'', req_url = ''https://proxy.example/x?y=1'',
     req_headers = [(''Host'', ''proxy.example''), (''Authorization'', ''Bearer x''),
       (''Cookie'', ''c=1''), (''X-Custom-Trace'', ''123''), (''X-Forwarded-For'', ''spoofed''),
       (''x-api-key'', [])],
     req_body = None\<rparr>"

definition example_context :: edge_context where
  "example_context = \<lparr>ip = ''192.0.2.7''\<rparr>"

definition example_call :: fetch_call where
  "example_call =
     \<lparr>fetch_url = ''https://backend.example/x?y=1'', fetch_method = ''GET'',
      fetch_headers =
        [(''authorization'', ''Bearer x''), (''x-api-key'', []), (''x-custom-trace'', ''123''),
         (''x-forwarded-for'', ''192.0.2.7''), (''X-Forwarded-Proto'', ''https''),
         (''X-Forwarded-Host'', ''proxy.example''), (''Host'', ''backend.example'')],
      fetch_body = None, fetch_redirect = ''manual''\<rparr>"

definition unreachable :: "fetch_call \<Rightarrow> thrown + response" where
  "unreachable c = Inl (ErrorObject ''dns error: failed to lookup address'')"

definition example_upstream :: response where
  "example_upstream =
     \<lparr>status = 302, statusText = ''Found'',
      headers = [(''Location'', ''https://backend.example/foo?bar''),
        (''Content-Type'', ''text/html''), (''X-Foo'', ''upstream''), (''Set-Cookie'', ''a=1'')],
      body = Some ''moved''\<rparr>"

definition reachable :: "fetch_call \<Rightarrow> thrown + response" where
  "reachable c = Inr example_upstream"

definition example_response :: response where
  "example_response =
     \<lparr>status = 302, statusText = [],
      headers = [(''content-type'', ''text/html''),
        (''location'', ''https://proxy.example/foo?bar''), (''x-foo'', ''upstream''),
        (''Access-Control-Allow-Origin'', ''*''),
        (''Access-Control-Allow-Methods'', ''GET, POST, PUT, DELETE, OPTIONS, HEAD, PATCH''),
        (''Access-Control-Allow-Headers'',
           ''Authorization, Content-Type, X-Requested-With, X-API-Key, X-Auth-Token'')],
      body = Some ''moved''\<rparr>"



definition example_custom :: json where
  "example_custom =
     JObj [(''X-Foo'', JStr ''bar''), (''Access-Control-Allow-Origin'', JStr ''https://app.example'')]"

definition example_cors :: header_list where
  "example_cors =
     [(''Access-Control-Allow-Origin'', ''*''),
      (''Access-Control-Allow-Methods'', ''GET, POST, PUT, DELETE, OPTIONS, HEAD, PATCH''),
      (''Access-Control-Allow-Headers'',
         ''Authorization, Content-Type, X-Requested-With, X-API-Key, X-Auth-Token'')]"

definition example_built :: header_list where
  "example_built =
     [(''content-type'', ''text/html''), (''location'', ''https://backend.example/foo?bar''),
      (''x-foo'', ''bar''), (''Access-Control-Allow-Origin'', ''https://app.example''),
      (''Access-Control-Allow-Methods'', ''GET, POST, PUT, DELETE, OPTIONS, HEAD, PATCH''),
      (''Access-Control-Allow-Headers'',
         ''Authorization, Content-Type, X-Requested-With, X-API-Key, X-Auth-Token'')]"


definition example_base :: url where
  "example_base =
     \<lparr>href = ''https://backend.example/base'', origin = ''https://backend.example'',
      protocol = ''https:'', host = ''backend.example'', pathname = ''/base'', search = []\<rparr>"

definition example_url :: url where
  "example_url =
     \<lparr>href = ''https://proxy.example/x?y=1'', origin = ''https://proxy.example'',
      protocol = ''https:'', host = ''proxy.example'', pathname = ''/x'', search = ''?y=1''\<rparr>"

text \<open>A request that carries two headers twice, each time with one empty value, and the
  upstream call it leads to; a network that answers every call with a given response; a
  redirect that carries \<^verbatim>\<open>Location\<close> twice; and a response with a given status.\<close>

definition repeated_request :: request where
  "repeated_request = \<lparr>req_method = ''GET'', req_url = ''https://proxy.example/x?y=1'',
     req_headers = [(''Accept'', ''a''), (''Accept'', []), (''X-V'', []), (''X-V'', ''2'')],
     req_body = None\<rparr>"

definition repeated_call :: fetch_call where
  "repeated_call =
     \<lparr>fetch_url = ''https://backend.example/x?y=1'', fetch_method = ''GET'',
      fetch_headers =
        [(''accept'', ''a,''), (''x-v'', ''2''),
         (''X-Forwarded-For'', ''192.0.2.7''), (''X-Forwarded-Proto'', ''https''),
         (''X-Forwarded-Host'', ''proxy.example''), (''Host'', ''backend.example'')],
      fetch_body = None, fetch_redirect = ''manual''\<rparr>"

definition answering :: "response \<Rightarrow> fetch_call \<Rightarrow> thrown + response" where
  "answering r c = Inr r"


definition plain_response :: "nat \<Rightarrow> response" where
  "plain_response st =
     \<lparr>status = st, statusText = [], headers = [(''Content-Type'', ''text/plain'')],
      body = Some ''ok''\<rparr>"

section \<open>Properties of the handler\<close>

subsection \<open>Configuration errors\<close>

lemma get_header_json_content_type:
  "get_header [(''Content-Type'', ''application/json'')] ''Content-Type'' = Some ''application/json''"
  by (simp add: get_header_def header_values_def)

lemma respond_error_response:
  "200 \<le> st \<Longrightarrow> st \<le> 599 \<Longrightarrow> \<not> null_body_status st \<Longrightarrow>
   respond (new_Response (Some b) st None hs) =
     Returned \<lparr>status = st, statusText = [], headers = hs, body = Some b\<rparr>"
  by (simp add: respond_def new_Response_def)

lemma null_body_status_500 [simp]: "\<not> null_body_status 500"
  by (simp add: null_body_status_def)

lemma null_body_status_502 [simp]: "\<not> null_body_status 502"
  by (simp add: null_body_status_def)

text \<open>
  C1. When \<^verbatim>\<open>TARGET_URL\<close> is not set, or is set and \<^verbatim>\<open>new URL\<close> throws on it, the handler
  returns a response with status 500, content type \<^verbatim>\<open>application/json\<close> and the JSON body
  \<^verbatim>\<open>{error: "Configuration Error", message: ...}\<close>, and makes no \<^verbatim>\<open>fetch\<close> call. This holds
  for every request, every context and every platform.
\<close>

theorem configuration_error:
  assumes "TARGET_URL env = None \<or> (\<exists>t. TARGET_URL env = Some t \<and> URL_new P t = None)"
  shows "\<exists>r. handler P env rq ctx = (Returned r, [])
           \<and> status r = 500
           \<and> get_header (headers r) ''Content-Type'' = Some ''application/json''
           \<and> body r = Some (JSON_stringify
                 [(''error'', ''Configuration Error''),
                  (''message'',
                     (case TARGET_URL env of
                        None \<Rightarrow> ''TARGET_URL environment variable is not set''
                      | Some t \<Rightarrow>
                          if t = [] then ''TARGET_URL environment variable is not set''
                          else ''Invalid TARGET_URL: '' @ t))])"
proof (cases "TARGET_URL env")
  case None
  then show ?thesis
    by (simp add: handler_def respond_error_response get_header_json_content_type)
next
  case (Some t)
  with assms have "URL_new P t = None" by simp
  with Some show ?thesis
    by (cases "t = []")
      (simp_all add: handler_def respond_error_response get_header_json_content_type)
qed

theorem configuration_error_witness:
  \<open>TARGET_URL (example_env\<lparr>env_TARGET_URL := Some ''not a url''\<rparr>) = Some ''not a url''
   \<and> URL_new (reference_platform reachable) ''not a url'' = None
   \<and> (\<exists>r. handler (reference_platform reachable)
            (example_env\<lparr>env_TARGET_URL := Some ''not a url''\<rparr>)
            example_request example_context = (Returned r, [])
        \<and> status r = 500
        \<and> get_header (headers r) ''Content-Type'' = Some ''application/json''
        \<and> body r =
            Some ''{"error":"Configuration Error","message":"Invalid TARGET_URL: not a url"}'')
   \<and> TARGET_URL (example_env\<lparr>env_TARGET_URL := None\<rparr>) = None
   \<and> (\<exists>r. handler (reference_platform reachable) (example_env\<lparr>env_TARGET_URL := None\<rparr>)
            example_request example_context = (Returned r, [])
        \<and> status r = 500
        \<and> get_header (headers r) ''Content-Type'' = Some ''application/json''
        \<and> body r =
            Some ''{"error":"Configuration Error","message":"TARGET_URL environment variable is not set"}'')\<close>
proof -
  let ?P = "reference_platform reachable"
  let ?bad = "example_env\<lparr>env_TARGET_URL := Some ''not a url''\<rparr>"
  let ?unset = "example_env\<lparr>env_TARGET_URL := None\<rparr>"
  have a: "TARGET_URL ?bad = Some ''not a url''" "TARGET_URL ?unset = None"
    by (simp_all add: TARGET_URL_def)
  have b: "URL_new ?P ''not a url'' = None"
    by (simp add: reference_platform_def ref_URL_new_def)
  have j: \<open>JSON_stringify [(''error'', ''Configuration Error''),
          (''message'', ''Invalid TARGET_URL: '' @ ''not a url'')] =
        ''{"error":"Configuration Error","message":"Invalid TARGET_URL: not a url"}''\<close>
    \<open>JSON_stringify [(''error'', ''Configuration Error''),
          (''message'', ''TARGET_URL environment variable is not set'')] =
        ''{"error":"Configuration Error","message":"TARGET_URL environment variable is not set"}''\<close>
    by code_simp+
  from a(1) b have
    c1: "TARGET_URL ?bad = None \<or> (\<exists>t. TARGET_URL ?bad = Some t \<and> URL_new ?P t = None)"
    by simp
  from a(2) have
    c2: "TARGET_URL ?unset = None \<or> (\<exists>t. TARGET_URL ?unset = Some t \<and> URL_new ?P t = None)"
    by simp
  from configuration_error [OF c1, of example_request example_context]
    configuration_error [OF c2, of example_request example_context] a b j
  show ?thesis by simp
qed

subsection \<open>Header lists\<close>

lemma to_lower_char_idem [simp]: "to_lower_char (to_lower_char c) = to_lower_char c"
  by (simp add: to_lower_char_def)

lemma toLowerCase_idem [simp]: "toLowerCase (toLowerCase s) = toLowerCase s"
  by (simp add: toLowerCase_def)

lemma header_values_lower [simp]: "header_values h (toLowerCase n) = header_values h n"
  by (simp add: header_values_def)

lemma get_header_lower [simp]: "get_header h (toLowerCase n) = get_header h n"
  by (simp add: get_header_def)

lemma has_header_lower [simp]: "has_header h (toLowerCase n) = has_header h n"
  by (simp add: has_header_def)

lemma header_values_cong:
  "toLowerCase m = toLowerCase n \<Longrightarrow> header_values h m = header_values h n"
  by (simp add: header_values_def)

lemma get_header_cong:
  "toLowerCase m = toLowerCase n \<Longrightarrow> get_header h m = get_header h n"
  using header_values_cong [of m n h] by (simp add: get_header_def)

lemma has_header_cong:
  "toLowerCase m = toLowerCase n \<Longrightarrow> has_header h m = has_header h n"
  using header_values_cong [of m n h] by (simp add: has_header_def)

lemma has_header_get: "has_header h n \<longleftrightarrow> get_header h n \<noteq> None"
  by (simp add: has_header_def get_header_def split: list.splits)

lemma header_values_set_header:
  "header_values (set_header h n v) m =
     (if toLowerCase m = toLowerCase n then [v] else header_values h m)"
proof (induction h)
  case Nil
  then show ?case by (auto simp: header_values_def)
next
  case (Cons kv h)
  show ?case
  proof (cases "toLowerCase (fst kv) = toLowerCase n")
    case True
    have "filter (\<lambda>kv. toLowerCase (fst kv) = toLowerCase m)
            (filter (\<lambda>kv'. toLowerCase (fst kv') \<noteq> toLowerCase n) h) =
          (if toLowerCase m = toLowerCase n then []
           else filter (\<lambda>kv. toLowerCase (fst kv) = toLowerCase m) h)"
      by (induction h) auto
    with True show ?thesis by (auto simp: header_values_def)
  next
    case False
    with Cons show ?thesis by (auto simp: header_values_def)
  qed
qed

lemma get_header_set_header:
  "get_header (set_header h n v) m =
     (if toLowerCase m = toLowerCase n then Some v else get_header h m)"
  by (simp add: get_header_def header_values_set_header)

lemma has_header_set_header:
  "has_header (set_header h n v) m \<longleftrightarrow> toLowerCase m = toLowerCase n \<or> has_header h m"
  by (simp add: has_header_def header_values_set_header)

lemma Headers_set_Inr:
  "Headers_set h n v = Inr h' \<Longrightarrow>
     h' = set_header h n (normalize_value v) \<and> header_name n \<and> header_value (normalize_value v)"
  by (auto simp: Headers_set_def split: if_splits)

lemma get_header_Headers_set:
  "Headers_set h n v = Inr h' \<Longrightarrow>
   get_header h' m = (if toLowerCase m = toLowerCase n then Some (normalize_value v) else get_header h m)"
  by (auto dest!: Headers_set_Inr simp: get_header_set_header)

lemma has_header_Headers_set:
  "Headers_set h n v = Inr h' \<Longrightarrow>
   has_header h' m \<longleftrightarrow> toLowerCase m = toLowerCase n \<or> has_header h m"
  by (auto dest!: Headers_set_Inr simp: has_header_set_header)

text \<open>The value that iteration reports for a name is its values joined, once the empty
  values that come first are left out; it is what \<^verbatim>\<open>get\<close> reports when the first value is
  not empty.\<close>

lemma foldl_combine_join:
  "acc \<noteq> [] \<Longrightarrow>
   foldl (\<lambda>acc v. if acc = [] then v else acc @ '', '' @ v) acc vs = join_with '', '' (acc # vs)"
proof (induction vs arbitrary: acc)
  case Nil
  then show ?case by simp
next
  case (Cons w ws)
  from Cons.prems have "acc @ '', '' @ w \<noteq> []" by simp
  from Cons.IH [OF this] Cons.prems show ?case
    by (cases ws) simp_all
qed

lemma combined_value_join:
  "combined_value vs = join_with '', '' (dropWhile (\<lambda>v. v = []) vs)"
proof (induction vs)
  case Nil
  then show ?case by (simp add: combined_value_def)
next
  case (Cons v vs)
  show ?case
  proof (cases "v = []")
    case True
    with Cons show ?thesis by (simp add: combined_value_def)
  next
    case False
    with foldl_combine_join [OF False, of vs] show ?thesis
      by (simp add: combined_value_def)
  qed
qed

lemma entry_value_get:
  assumes "header_values h n = v # vs" and "v \<noteq> []"
  shows "entry_value h n = get_header h n"
  using assms by (simp add: entry_value_def has_header_def get_header_def combined_value_join)

subsection \<open>The copying loops\<close>

text \<open>The loop over a list of names: a listed name whose value in the source is neither
  absent nor empty ends with that value, stripped by \<^verbatim>\<open>set\<close>; every other name keeps what
  the destination had.\<close>

lemma copy_listed_get:
  "copy_listed names src dst = Inr out \<Longrightarrow>
   get_header out m =
     (if listed names m \<and> truthy (get_header src m)
      then map_option normalize_value (get_header src m)
      else get_header dst m)"
proof (induction names arbitrary: dst)
  case Nil
  then show ?case by (simp add: listed_def)
next
  case (Cons header rest)
  from Cons.prems have hn: "header_name header"
    by (auto simp: Headers_get_def split: if_splits)
  then have g: "Headers_get src header = Inr (get_header src header)"
    by (simp add: Headers_get_def)
  have same: "toLowerCase m = toLowerCase header \<Longrightarrow> get_header src m = get_header src header"
    by (rule get_header_cong)
  show ?case
  proof (cases "truthy (get_header src header)")
    case False
    with Cons.prems g have "copy_listed rest src dst = Inr out"
      by (auto simp: truthy_def split: option.splits if_splits)
    from Cons.IH [OF this] False same show ?thesis
      by (auto simp: listed_def)
  next
    case True
    then obtain v where v: "get_header src header = Some v" "v \<noteq> []"
      by (auto simp: truthy_def)
    with Cons.prems g obtain dst' where
      s: "Headers_set dst header v = Inr dst'" and r: "copy_listed rest src dst' = Inr out"
      by (auto split: sum.splits)
    from Cons.IH [OF r] get_header_Headers_set [OF s] v same True show ?thesis
      by (auto simp: listed_def)
  qed
qed

text \<open>The loop over entries: a name the destination has keeps its value; any other name
  takes the value of the first entry of that name that starts with \<^verbatim>\<open>x-\<close>.\<close>

lemma copy_x_prefixed_get:
  "copy_x_prefixed es dst = Inr out \<Longrightarrow>
   get_header out m =
     (if has_header dst m then get_header dst m
      else (case find (\<lambda>kv. toLowerCase (fst kv) = toLowerCase m
                          \<and> startsWith (toLowerCase (fst kv)) ''x-'') es of
              None \<Rightarrow> None
            | Some kv \<Rightarrow> Some (normalize_value (snd kv))))"
proof (induction es arbitrary: dst)
  case Nil
  then show ?case by (simp add: has_header_get)
next
  case (Cons kv rest)
  show ?case
  proof (cases "startsWith (toLowerCase (fst kv)) ''x-''")
    case False
    with Cons.prems have "copy_x_prefixed rest dst = Inr out" by simp
    from Cons.IH [OF this] False show ?thesis by simp
  next
    case x: True
    with Cons.prems have hn: "header_name (fst kv)"
      by (auto simp: Headers_has_def split: if_splits)
    show ?thesis
    proof (cases "has_header dst (fst kv)")
      case True
      with x hn Cons.prems have "copy_x_prefixed rest dst = Inr out"
        by (simp add: Headers_has_def)
      show ?thesis
      proof (cases "toLowerCase m = toLowerCase (fst kv)")
        case same: True
        with True have "has_header dst m" by (simp add: has_header_cong [of m "fst kv"])
        with Cons.IH [OF \<open>copy_x_prefixed rest dst = Inr out\<close>] show ?thesis by simp
      next
        case other: False
        then have "toLowerCase (fst kv) \<noteq> toLowerCase m"
          by auto
        with Cons.IH [OF \<open>copy_x_prefixed rest dst = Inr out\<close>] show ?thesis by simp
      qed
    next
      case False
      with x hn Cons.prems obtain dst' where
        s: "Headers_set dst (fst kv) (snd kv) = Inr dst'" and r: "copy_x_prefixed rest dst' = Inr out"
        by (auto simp: Headers_has_def split: sum.splits)
      show ?thesis
      proof (cases "toLowerCase m = toLowerCase (fst kv)")
        case same: True
        with False have "\<not> has_header dst m" by (simp add: has_header_cong [of m "fst kv"])
        moreover from same have "has_header dst' m" "get_header dst' m = Some (normalize_value (snd kv))"
          by (simp_all add: has_header_Headers_set [OF s] get_header_Headers_set [OF s])
        ultimately show ?thesis using Cons.IH [OF r] same x by simp
      next
        case other: False
        then have "has_header dst' m = has_header dst m" "get_header dst' m = get_header dst m"
          by (simp_all add: has_header_Headers_set [OF s] get_header_Headers_set [OF s])
        moreover from other have "toLowerCase (fst kv) \<noteq> toLowerCase m"
          by auto
        ultimately show ?thesis using Cons.IH [OF r] by simp
      qed
    qed
  qed
qed

text \<open>Among the entries of a header list, the entry of a name that starts with \<^verbatim>\<open>x-\<close> is
  the lower-cased name with the combined value.\<close>

lemma find_append_cases:
  "find Q (xs @ ys) = (case find Q xs of None \<Rightarrow> find Q ys | Some x \<Rightarrow> Some x)"
  by (induction xs) auto

lemma lower_set_cookie: "toLowerCase ''set-cookie'' = ''set-cookie''"
  by (simp add: toLowerCase_def to_lower_char_def)

lemma set_cookie_not_x: "\<not> startsWith ''set-cookie'' ''x-''"
  by (simp add: startsWith_def)

lemma find_x_set_cookie: "find (x_key m) (map (Pair ''set-cookie'') vs) = None"
  by (induction vs) (simp_all add: x_key_def lower_set_cookie set_cookie_not_x)

lemma find_x_entries_of:
  assumes "toLowerCase n = n"
  shows "find (x_key m) (entries_of h n) =
     (if n = toLowerCase m \<and> startsWith (toLowerCase m) ''x-''
      then Some (toLowerCase m, combined_value (header_values h m)) else None)"
proof (cases "n = ''set-cookie''")
  case True
  then have "find (x_key m) (entries_of h n) = None"
    by (simp add: entries_of_def find_x_set_cookie)
  moreover from True have "\<not> (n = toLowerCase m \<and> startsWith (toLowerCase m) ''x-'')"
    using set_cookie_not_x by auto
  ultimately show ?thesis by simp
next
  case False
  show ?thesis
  proof (cases "n = toLowerCase m")
    case True
    then have "header_values h n = header_values h m" by simp
    with True False show ?thesis by (simp add: entries_of_def x_key_def)
  next
    case other: False
    with assms have "toLowerCase n \<noteq> toLowerCase m" by simp
    with False other show ?thesis by (simp add: entries_of_def x_key_def)
  qed
qed

lemma find_x_entries_aux:
  assumes "\<forall>n\<in>set ns. toLowerCase n = n"
  shows "find (x_key m) (concat (map (entries_of h) ns)) =
         (if toLowerCase m \<in> set ns \<and> startsWith (toLowerCase m) ''x-''
          then Some (toLowerCase m, combined_value (header_values h m)) else None)"
  using assms
proof (induction ns)
  case Nil
  then show ?case by simp
next
  case (Cons n ns)
  then have low: "toLowerCase n = n" and rest: "\<forall>n\<in>set ns. toLowerCase n = n" by auto
  note IH = Cons.IH [OF rest]
  show ?case
  proof (cases "n = toLowerCase m \<and> startsWith (toLowerCase m) ''x-''")
    case True
    with find_x_entries_of [OF low, of m h] show ?thesis by (simp add: find_append_cases)
  next
    case False
    with find_x_entries_of [OF low, of m h] have "find (x_key m) (entries_of h n) = None"
      by simp
    then have "find (x_key m) (concat (map (entries_of h) (n # ns))) =
               find (x_key m) (concat (map (entries_of h) ns))"
      by (simp add: find_append_cases)
    with IH False show ?thesis by auto
  qed
qed

lemma has_header_iff:
  "has_header h m \<longleftrightarrow> (\<exists>kv\<in>set h. toLowerCase (fst kv) = toLowerCase m)"
  by (auto simp: has_header_def header_values_def filter_empty_conv)

lemma lower_in_names:
  "toLowerCase m \<in> set (sort (remdups (map (\<lambda>kv. toLowerCase (fst kv)) h))) \<longleftrightarrow> has_header h m"
  unfolding has_header_iff by (simp add: image_iff) metis

lemma Headers_entries_concat:
  "Headers_entries h =
     concat (map (entries_of h) (sort (remdups (map (\<lambda>kv. toLowerCase (fst kv)) h))))"
  by (simp add: Headers_entries_def entries_of_def [abs_def])

lemma find_x_entries:
  "find (x_key m) (Headers_entries h) =
   (if has_header h m \<and> startsWith (toLowerCase m) ''x-''
    then Some (toLowerCase m, combined_value (header_values h m)) else None)"
proof -
  have "\<forall>n\<in>set (sort (remdups (map (\<lambda>kv. toLowerCase (fst kv)) h))). toLowerCase n = n"
    by auto
  from find_x_entries_aux [OF this, of m h] show ?thesis
    unfolding Headers_entries_concat lower_in_names by simp
qed

lemma copy_x_entries_get:
  assumes "copy_x_prefixed (Headers_entries src) dst = Inr out"
  shows "get_header out m =
     (if has_header dst m then get_header dst m
      else if startsWith (toLowerCase m) ''x-'' then map_option normalize_value (entry_value src m)
      else None)"
proof (cases "has_header src m")
  case True
  with copy_x_prefixed_get [OF assms, of m] show ?thesis
    by (simp add: find_x_entries [unfolded x_key_def] entry_value_def)
next
  case False
  with copy_x_prefixed_get [OF assms, of m] show ?thesis
    by (simp add: find_x_entries [unfolded x_key_def] entry_value_def)
qed

text \<open>The two copying loops together.\<close>

lemma copied_headers_get:
  assumes "copy_listed names src [] = Inr h1"
    and "copy_x_prefixed (Headers_entries src) h1 = Inr h2"
  shows "get_header h2 m =
     (if listed names m \<and> truthy (get_header src m)
      then map_option normalize_value (get_header src m)
      else if startsWith (toLowerCase m) ''x-''
      then map_option normalize_value (entry_value src m)
      else None)"
proof -
  have e: "get_header [] m = None" by (simp add: get_header_def header_values_def)
  have h1: "get_header h1 m =
     (if listed names m \<and> truthy (get_header src m)
      then map_option normalize_value (get_header src m) else None)"
    using copy_listed_get [OF assms(1), of m] e by simp
  show ?thesis
    using copy_x_entries_get [OF assms(2), of m] h1
    by (auto simp: has_header_get truthy_def)
qed

subsection \<open>Request headers\<close>

lemma lower_forwarded_for: "toLowerCase ''X-Forwarded-For'' = ''x-forwarded-for''"
  by (simp add: toLowerCase_def to_lower_char_def)

lemma lower_forwarded_proto: "toLowerCase ''X-Forwarded-Proto'' = ''x-forwarded-proto''"
  by (simp add: toLowerCase_def to_lower_char_def)

lemma lower_forwarded_host: "toLowerCase ''X-Forwarded-Host'' = ''x-forwarded-host''"
  by (simp add: toLowerCase_def to_lower_char_def)

lemma lower_host: "toLowerCase ''Host'' = ''host''"
  by (simp add: toLowerCase_def to_lower_char_def)

lemmas lower_forwarding = lower_forwarded_for lower_forwarded_proto lower_forwarded_host lower_host

lemma buildRequestHeaders_steps:
  assumes "buildRequestHeaders allowed inbound cip url base = Inr out"
  obtains h1 h2 h3 h4 h5 where
    "copy_listed allowed inbound [] = Inr h1"
    "copy_x_prefixed (Headers_entries inbound) h1 = Inr h2"
    "Headers_set h2 ''X-Forwarded-For'' cip = Inr h3"
    "Headers_set h3 ''X-Forwarded-Proto'' (replace_colon (protocol url)) = Inr h4"
    "Headers_set h4 ''X-Forwarded-Host'' (host url) = Inr h5"
    "Headers_set h5 ''Host'' (host base) = Inr out"
  using assms unfolding buildRequestHeaders_def by (auto split: sum.splits)

lemma forwarding_headers_get:
  assumes "buildRequestHeaders allowed inbound cip url base = Inr out"
  shows "get_header out ''Host'' = Some (normalize_value (host base))"
    and "get_header out ''X-Forwarded-Host'' = Some (normalize_value (host url))"
    and "get_header out ''X-Forwarded-Proto'' = Some (normalize_value (replace_colon (protocol url)))"
    and "get_header out ''X-Forwarded-For'' = Some (normalize_value cip)"
proof -
  from assms obtain h1 h2 h3 h4 h5 where
    s3: "Headers_set h2 ''X-Forwarded-For'' cip = Inr h3" and
    s4: "Headers_set h3 ''X-Forwarded-Proto'' (replace_colon (protocol url)) = Inr h4" and
    s5: "Headers_set h4 ''X-Forwarded-Host'' (host url) = Inr h5" and
    s6: "Headers_set h5 ''Host'' (host base) = Inr out"
    by (rule buildRequestHeaders_steps)
  note g = get_header_Headers_set [OF s6] get_header_Headers_set [OF s5]
    get_header_Headers_set [OF s4] get_header_Headers_set [OF s3]
  show "get_header out ''Host'' = Some (normalize_value (host base))"
    by (simp add: g)
  show "get_header out ''X-Forwarded-Host'' = Some (normalize_value (host url))"
    by (simp add: g lower_forwarding)
  show "get_header out ''X-Forwarded-Proto'' = Some (normalize_value (replace_colon (protocol url)))"
    by (simp add: g lower_forwarding)
  show "get_header out ''X-Forwarded-For'' = Some (normalize_value cip)"
    by (simp add: g lower_forwarding)
qed

lemma copied_request_headers_get:
  assumes "buildRequestHeaders allowed inbound cip url base = Inr out"
    and "toLowerCase n \<notin> set [''x-forwarded-for'', ''x-forwarded-proto'', ''x-forwarded-host'', ''host'']"
  shows "get_header out n =
     (if listed allowed n \<and> truthy (get_header inbound n)
      then map_option normalize_value (get_header inbound n)
      else if startsWith (toLowerCase n) ''x-''
      then map_option normalize_value (entry_value inbound n)
      else None)"
proof -
  from assms(1) obtain h1 h2 h3 h4 h5 where
    s1: "copy_listed allowed inbound [] = Inr h1" and
    s2: "copy_x_prefixed (Headers_entries inbound) h1 = Inr h2" and
    s3: "Headers_set h2 ''X-Forwarded-For'' cip = Inr h3" and
    s4: "Headers_set h3 ''X-Forwarded-Proto'' (replace_colon (protocol url)) = Inr h4" and
    s5: "Headers_set h4 ''X-Forwarded-Host'' (host url) = Inr h5" and
    s6: "Headers_set h5 ''Host'' (host base) = Inr out"
    by (rule buildRequestHeaders_steps)
  from assms(2) have "get_header out n = get_header h2 n"
    by (simp add: get_header_Headers_set [OF s6] get_header_Headers_set [OF s5]
          get_header_Headers_set [OF s4] get_header_Headers_set [OF s3] lower_forwarding)
  with copied_headers_get [OF s1 s2, of n] show ?thesis by simp
qed

text \<open>What a run that reaches \<^verbatim>\<open>fetch\<close> has done before.\<close>

lemma handler_call:
  assumes "c \<in> set (snd (handler P env rq ctx))"
  obtains t base url target_url where
    "TARGET_URL env = Some t" "t \<noteq> []" "URL_new P t = Some base"
    "URL_new P (req_url rq) = Some url"
    "URL_new_base P (pathname url @ search url) base = Some target_url"
    "buildRequestHeaders (getAllowedRequestHeaders P env) (req_headers rq) (ip ctx) url base
       = Inr (fetch_headers c)"
    "c = \<lparr>fetch_url = href target_url, fetch_method = req_method rq,
          fetch_headers = fetch_headers c, fetch_body = req_body rq,
          fetch_redirect = ''manual''\<rparr>"
    "handler P env rq ctx = forward P env t base rq ctx"
    "snd (handler P env rq ctx) = [c]"
    "fst (handler P env rq ctx) =
       (case fetch P c of
          Inl error \<Rightarrow>
            respond (new_Response
              (Some (JSON_stringify
                 [(''error'', ''Proxy Error''),
                  (''message'', ''Failed to connect to target server''),
                  (''target'', t),
                  (''details'', message_of error)]))
              502 None [(''Content-Type'', ''application/json'')])
        | Inr upstream \<Rightarrow> respond (buildResponse P env url base upstream))"
proof -
  from assms obtain t where t: "TARGET_URL env = Some t" "t \<noteq> []"
    by (auto simp: handler_def split: option.splits if_splits)
  with assms obtain base where base: "URL_new P t = Some base"
    by (auto simp: handler_def split: option.splits if_splits)
  with t have fw: "handler P env rq ctx = forward P env t base rq ctx"
    by (simp add: handler_def)
  with assms have c: "c \<in> set (snd (forward P env t base rq ctx))" by simp
  then obtain url where url: "URL_new P (req_url rq) = Some url"
    by (auto simp: forward_def split: option.splits)
  with c obtain target_url where
    tu: "URL_new_base P (pathname url @ search url) base = Some target_url"
    by (auto simp: forward_def split: option.splits)
  with c url obtain hs where
    hs: "buildRequestHeaders (getAllowedRequestHeaders P env) (req_headers rq) (ip ctx) url base = Inr hs"
    by (auto simp: forward_def split: option.splits sum.splits)
  define call where "call = \<lparr>fetch_url = href target_url, fetch_method = req_method rq,
          fetch_headers = hs, fetch_body = req_body rq, fetch_redirect = ''manual''\<rparr>"
  have f: "forward P env t base rq ctx =
     (case fetch P call of
          Inl error \<Rightarrow>
            (respond (new_Response
              (Some (JSON_stringify
                 [(''error'', ''Proxy Error''),
                  (''message'', ''Failed to connect to target server''),
                  (''target'', t),
                  (''details'', message_of error)]))
              502 None [(''Content-Type'', ''application/json'')]), [call])
        | Inr upstream \<Rightarrow> (respond (buildResponse P env url base upstream), [call]))"
    unfolding call_def by (simp add: forward_def url tu hs Let_def)
  then have s: "snd (forward P env t base rq ctx) = [call]"
    by (simp split: sum.splits)
  with c have cc: "c = call" by simp
  have "fst (forward P env t base rq ctx) =
       (case fetch P call of
          Inl error \<Rightarrow>
            respond (new_Response
              (Some (JSON_stringify
                 [(''error'', ''Proxy Error''),
                  (''message'', ''Failed to connect to target server''),
                  (''target'', t),
                  (''details'', message_of error)]))
              502 None [(''Content-Type'', ''application/json'')])
        | Inr upstream \<Rightarrow> respond (buildResponse P env url base upstream))"
    by (simp add: f split: sum.splits)
  with that [OF t base url tu] hs cc fw s show thesis
    by (simp add: call_def)
qed

subsection \<open>Forwarded and dropped request headers\<close>

lemma allowed_lowercase:
  "map toLowerCase (getAllowedRequestHeaders P env) = getAllowedRequestHeaders P env"
proof (cases "ALLOWED_HEADERS env = []")
  case True
  then show ?thesis
    by (simp add: getAllowedRequestHeaders_def DEFAULT_REQUEST_HEADERS_def toLowerCase_def
        to_lower_char_def)
next
  case False
  then show ?thesis by (simp add: getAllowedRequestHeaders_def)
qed

lemma listed_allowed:
  "listed (getAllowedRequestHeaders P env) n \<longleftrightarrow> toLowerCase n \<in> set (getAllowedRequestHeaders P env)"
  unfolding listed_def allowed_lowercase ..

text \<open>
  C4, as amended. In the headers of the upstream call, a name other than the four
  forwarding headers (\<^verbatim>\<open>X-Forwarded-For\<close>, \<^verbatim>\<open>X-Forwarded-Proto\<close>, \<^verbatim>\<open>X-Forwarded-Host\<close>, \<^verbatim>\<open>Host\<close>)
  \<^item> has the value that \<^verbatim>\<open>Headers.get\<close> reports for the inbound request, if its lower-cased
    name is in the allowed list and that value is not empty;
  \<^item> else, if it starts with \<^verbatim>\<open>x-\<close>, has the value that iteration over the inbound headers
    reports for it, and is absent when the inbound request has no header of that name;
  \<^item> else is absent.
  In both cases the value arrives with the white space at its ends stripped, as
  \<^verbatim>\<open>Headers.set\<close> strips it. This holds for every run that reaches \<^verbatim>\<open>fetch\<close>, whatever the
  inbound headers are.
\<close>

theorem inbound_headers_forwarded:
  assumes "c \<in> set (snd (handler P env rq ctx))"
    and "toLowerCase n \<notin>
           set [''x-forwarded-for'', ''x-forwarded-proto'', ''x-forwarded-host'', ''host'']"
  shows "get_header (fetch_headers c) n =
     (if toLowerCase n \<in> set (getAllowedRequestHeaders P env)
           \<and> truthy (get_header (req_headers rq) n)
      then map_option normalize_value (get_header (req_headers rq) n)
      else if startsWith (toLowerCase n) ''x-''
      then map_option normalize_value (entry_value (req_headers rq) n)
      else None)"
proof -
  from assms(1) obtain url base where
    "buildRequestHeaders (getAllowedRequestHeaders P env) (req_headers rq) (ip ctx) url base
       = Inr (fetch_headers c)"
    by (rule handler_call)
  from copied_request_headers_get [OF this assms(2)] show ?thesis
    by (simp add: listed_allowed)
qed

lemma example_run_calls:
  "snd (handler (reference_platform unreachable) example_env example_request example_context) =
     [example_call]"
  by code_simp

lemma repeated_run_calls:
  "snd (handler (reference_platform unreachable) example_env repeated_request example_context) =
     [repeated_call]"
  by code_simp

theorem inbound_headers_forwarded_witness:
  "example_call \<in>
     set (snd (handler (reference_platform unreachable) example_env example_request example_context))
   \<and> toLowerCase ''Authorization'' \<notin>
       set [''x-forwarded-for'', ''x-forwarded-proto'', ''x-forwarded-host'', ''host'']
   \<and> get_header (req_headers example_request) ''Authorization'' = Some ''Bearer x''
   \<and> get_header (fetch_headers example_call) ''Authorization'' = Some ''Bearer x''
   \<and> get_header (req_headers example_request) ''Cookie'' = Some ''c=1''
   \<and> get_header (fetch_headers example_call) ''Cookie'' = None
   \<and> get_header (req_headers example_request) ''X-Custom-Trace'' = Some ''123''
   \<and> get_header (fetch_headers example_call) ''X-Custom-Trace'' = Some ''123''
   \<and> repeated_call \<in>
       set (snd (handler (reference_platform unreachable) example_env repeated_request
              example_context))
   \<and> header_values (req_headers repeated_request) ''X-V'' = [[], ''2'']
   \<and> get_header (fetch_headers repeated_call) ''X-V'' = Some ''2''"
proof -
  let ?P = "reference_platform unreachable"
  let ?rhs = "\<lambda>rq n.
     (if toLowerCase n \<in> set (getAllowedRequestHeaders ?P example_env)
           \<and> truthy (get_header (req_headers rq) n)
      then map_option normalize_value (get_header (req_headers rq) n)
      else if startsWith (toLowerCase n) ''x-''
      then map_option normalize_value (entry_value (req_headers rq) n)
      else None)"
  have c: "example_call \<in> set (snd (handler ?P example_env example_request example_context))"
    by (simp add: example_run_calls)
  have d: "repeated_call \<in> set (snd (handler ?P example_env repeated_request example_context))"
    by (simp add: repeated_run_calls)
  have a1: "toLowerCase ''Authorization'' \<notin>
       set [''x-forwarded-for'', ''x-forwarded-proto'', ''x-forwarded-host'', ''host'']"
    by code_simp
  have a3: "?rhs example_request ''Authorization'' = Some ''Bearer x''"
    by code_simp
  have b1: "toLowerCase ''Cookie'' \<notin>
       set [''x-forwarded-for'', ''x-forwarded-proto'', ''x-forwarded-host'', ''host'']"
    by code_simp
  have b3: "?rhs example_request ''Cookie'' = None"
    by code_simp
  have c1: "toLowerCase ''X-Custom-Trace'' \<notin>
       set [''x-forwarded-for'', ''x-forwarded-proto'', ''x-forwarded-host'', ''host'']"
    by code_simp
  have c3: "?rhs example_request ''X-Custom-Trace'' = Some ''123''"
    by code_simp
  have d1: "toLowerCase ''X-V'' \<notin>
       set [''x-forwarded-for'', ''x-forwarded-proto'', ''x-forwarded-host'', ''host'']"
    by code_simp
  have d3: "?rhs repeated_request ''X-V'' = Some ''2''"
    by code_simp
  have g: "get_header (req_headers example_request) ''Authorization'' = Some ''Bearer x''"
    "get_header (req_headers example_request) ''Cookie'' = Some ''c=1''"
    "get_header (req_headers example_request) ''X-Custom-Trace'' = Some ''123''"
    "header_values (req_headers repeated_request) ''X-V'' = [[], ''2'']"
    by code_simp+
  from inbound_headers_forwarded [OF c a1] a3
  have r1: "get_header (fetch_headers example_call) ''Authorization'' = Some ''Bearer x''"
    by simp
  from inbound_headers_forwarded [OF c b1] b3
  have r2: "get_header (fetch_headers example_call) ''Cookie'' = None"
    by simp
  from inbound_headers_forwarded [OF c c1] c3
  have r3: "get_header (fetch_headers example_call) ''X-Custom-Trace'' = Some ''123''"
    by simp
  from inbound_headers_forwarded [OF d d1] d3
  have r4: "get_header (fetch_headers repeated_call) ''X-V'' = Some ''2''"
    by simp
  from c d a1 g r1 r2 r3 r4 show ?thesis by blast
qed

text \<open>The claim as stated has an allowed header copied unchanged. The request here
  carries \<^verbatim>\<open>Accept\<close> twice, the second time with an empty value: its value is \<open>''a, ''\<close>, and
  the upstream call has \<open>''a,''\<close>.\<close>

theorem repeated_header_counterexample:
  "get_header (req_headers repeated_request) ''Accept'' = Some ''a, ''
   \<and> toLowerCase ''Accept'' \<in> set (getAllowedRequestHeaders (reference_platform unreachable) example_env)
   \<and> snd (handler (reference_platform unreachable) example_env repeated_request example_context) =
       [repeated_call]
   \<and> get_header (fetch_headers repeated_call) ''Accept'' = Some ''a,''"
  by code_simp

subsection \<open>Forwarding headers\<close>

lemma replace_colon_scheme:
  "CHR '':'' \<notin> set scheme \<Longrightarrow> replace_colon (scheme @ '':'') = scheme"
proof -
  assume a: "CHR '':'' \<notin> set scheme"
  then have "takeWhile (\<lambda>c. c \<noteq> CHR '':'') (scheme @ '':'') = scheme"
    by (induction scheme) auto
  moreover from a have "dropWhile (\<lambda>c. c \<noteq> CHR '':'') (scheme @ '':'') = '':''"
    by (induction scheme) auto
  ultimately show ?thesis by (simp add: replace_colon_def)
qed

text \<open>
  C5. In every upstream call, \<^verbatim>\<open>Host\<close> is the host of the parsed \<^verbatim>\<open>TARGET_URL\<close>,
  \<^verbatim>\<open>X-Forwarded-For\<close> the client address, \<^verbatim>\<open>X-Forwarded-Proto\<close> the scheme of the inbound URL
  and \<^verbatim>\<open>X-Forwarded-Host\<close> its host, whatever the inbound request's headers are. The four
  strings are taken without white space at their ends, as a host, an address and a scheme
  are.
\<close>

theorem forwarding_headers:
  assumes "c \<in> set (snd (handler P env rq ctx))"
    and "TARGET_URL env = Some t" and "URL_new P t = Some targetBaseUrl"
    and "URL_new P (req_url rq) = Some url"
    and "protocol url = scheme @ '':''" and "CHR '':'' \<notin> set scheme"
    and "normalize_value (host targetBaseUrl) = host targetBaseUrl"
    and "normalize_value (ip ctx) = ip ctx"
    and "normalize_value scheme = scheme"
    and "normalize_value (host url) = host url"
  shows "get_header (fetch_headers c) ''Host'' = Some (host targetBaseUrl)
       \<and> get_header (fetch_headers c) ''X-Forwarded-For'' = Some (ip ctx)
       \<and> get_header (fetch_headers c) ''X-Forwarded-Proto'' = Some scheme
       \<and> get_header (fetch_headers c) ''X-Forwarded-Host'' = Some (host url)"
proof -
  from assms(1) obtain t' base' url' where
    "TARGET_URL env = Some t'" "URL_new P t' = Some base'" "URL_new P (req_url rq) = Some url'"
    "buildRequestHeaders (getAllowedRequestHeaders P env) (req_headers rq) (ip ctx) url' base'
       = Inr (fetch_headers c)"
    by (rule handler_call)
  with assms(2-4) have
    b: "buildRequestHeaders (getAllowedRequestHeaders P env) (req_headers rq) (ip ctx) url
          targetBaseUrl = Inr (fetch_headers c)"
    by simp
  from forwarding_headers_get [OF b] assms(5-10) show ?thesis
    by (simp add: replace_colon_scheme)
qed

theorem forwarding_headers_witness:
  "example_call \<in>
     set (snd (handler (reference_platform unreachable) example_env example_request example_context))
   \<and> TARGET_URL example_env = Some ''https://backend.example/base''
   \<and> URL_new (reference_platform unreachable) ''https://backend.example/base'' = Some example_base
   \<and> URL_new (reference_platform unreachable) (req_url example_request) = Some example_url
   \<and> protocol example_url = ''https'' @ '':'' \<and> CHR '':'' \<notin> set ''https''
   \<and> normalize_value (host example_base) = host example_base
   \<and> normalize_value (ip example_context) = ip example_context
   \<and> normalize_value ''https'' = ''https''
   \<and> normalize_value (host example_url) = host example_url
   \<and> get_header (req_headers example_request) ''Host'' = Some ''proxy.example''
   \<and> get_header (req_headers example_request) ''X-Forwarded-For'' = Some ''spoofed''
   \<and> get_header (fetch_headers example_call) ''Host'' = Some ''backend.example''
   \<and> get_header (fetch_headers example_call) ''X-Forwarded-For'' = Some ''192.0.2.7''
   \<and> get_header (fetch_headers example_call) ''X-Forwarded-Proto'' = Some ''https''
   \<and> get_header (fetch_headers example_call) ''X-Forwarded-Host'' = Some ''proxy.example''"
proof -
  let ?P = "reference_platform unreachable"
  have c: "example_call \<in> set (snd (handler ?P example_env example_request example_context))"
    by (simp add: example_run_calls)
  have t: "TARGET_URL example_env = Some ''https://backend.example/base''"
    by code_simp
  have b: "URL_new ?P ''https://backend.example/base'' = Some example_base"
    by code_simp
  have u: "URL_new ?P (req_url example_request) = Some example_url"
    by code_simp
  have p: "protocol example_url = ''https'' @ '':''" "CHR '':'' \<notin> set ''https''"
    by (simp_all add: example_url_def)
  have n: "normalize_value (host example_base) = host example_base"
    "normalize_value (ip example_context) = ip example_context"
    "normalize_value ''https'' = ''https''"
    "normalize_value (host example_url) = host example_url"
    by code_simp+
  have i: "get_header (req_headers example_request) ''Host'' = Some ''proxy.example''"
    "get_header (req_headers example_request) ''X-Forwarded-For'' = Some ''spoofed''"
    by code_simp+
  from forwarding_headers [OF c t b u p n] c t b u p n i show ?thesis
    by (simp add: example_context_def example_base_def example_url_def)
qed

subsection \<open>A failed upstream call\<close>

lemma handler_single_call:
  "snd (handler P env rq ctx) = [] \<or> (\<exists>c. snd (handler P env rq ctx) = [c])"
proof (cases "snd (handler P env rq ctx)")
  case Nil
  then show ?thesis by simp
next
  case (Cons c cs)
  then have "c \<in> set (snd (handler P env rq ctx))" by simp
  then have "snd (handler P env rq ctx) = [c]" by (rule handler_call)
  then show ?thesis by blast
qed

text \<open>
  C6. When the \<^verbatim>\<open>fetch\<close> call is rejected, the handler returns status 502 with content type
  \<^verbatim>\<open>application/json\<close> and the JSON body \<^verbatim>\<open>{error: "Proxy Error", message: "Failed to connect
  to target server", target: TARGET_URL, details: the error's message}\<close>; the call was the
  only one.
\<close>

theorem upstream_failure:
  assumes "c \<in> set (snd (handler P env rq ctx))"
    and "fetch P c = Inl err"
    and "TARGET_URL env = Some t"
  shows "handler P env rq ctx =
     (Returned \<lparr>status = 502, statusText = [],
                headers = [(''Content-Type'', ''application/json'')],
                body = Some (JSON_stringify
                  [(''error'', ''Proxy Error''),
                   (''message'', ''Failed to connect to target server''),
                   (''target'', t),
                   (''details'', message_of err)])\<rparr>,
      [c])"
proof -
  from assms(1) obtain t' url base where
    t': "TARGET_URL env = Some t'" and
    s: "snd (handler P env rq ctx) = [c]" and
    f: "fst (handler P env rq ctx) =
       (case fetch P c of
          Inl error \<Rightarrow>
            respond (new_Response
              (Some (JSON_stringify
                 [(''error'', ''Proxy Error''),
                  (''message'', ''Failed to connect to target server''),
                  (''target'', t'),
                  (''details'', message_of error)]))
              502 None [(''Content-Type'', ''application/json'')])
        | Inr upstream \<Rightarrow> respond (buildResponse P env url base upstream))"
    by (rule handler_call)
  from t' assms(3) have "t' = t" by simp
  with f assms(2) have "fst (handler P env rq ctx) =
     Returned \<lparr>status = 502, statusText = [],
                headers = [(''Content-Type'', ''application/json'')],
                body = Some (JSON_stringify
                  [(''error'', ''Proxy Error''),
                   (''message'', ''Failed to connect to target server''),
                   (''target'', t),
                   (''details'', message_of err)])\<rparr>"
    by (simp add: respond_error_response)
  with s show ?thesis by (simp add: prod_eq_iff)
qed

theorem upstream_failure_witness:
  \<open>example_call \<in>
     set (snd (handler (reference_platform unreachable) example_env example_request example_context))
   \<and> fetch (reference_platform unreachable) example_call =
       Inl (ErrorObject ''dns error: failed to lookup address'')
   \<and> TARGET_URL example_env = Some ''https://backend.example/base''
   \<and> handler (reference_platform unreachable) example_env example_request example_context =
     (Returned \<lparr>status = 502, statusText = [],
                headers = [(''Content-Type'', ''application/json'')],
                body = Some ''{"error":"Proxy Error","message":"Failed to connect to target server","target":"https://backend.example/base","details":"dns error: failed to lookup address"}''\<rparr>,
      [example_call])\<close>
proof -
  let ?P = "reference_platform unreachable"
  have c: "example_call \<in> set (snd (handler ?P example_env example_request example_context))"
    by (simp add: example_run_calls)
  have f: "fetch ?P example_call = Inl (ErrorObject ''dns error: failed to lookup address'')"
    by (simp add: reference_platform_def unreachable_def)
  have t: "TARGET_URL example_env = Some ''https://backend.example/base''"
    by (simp add: TARGET_URL_def example_env_def)
  have j: \<open>JSON_stringify
                  [(''error'', ''Proxy Error''),
                   (''message'', ''Failed to connect to target server''),
                   (''target'', ''https://backend.example/base''),
                   (''details'', message_of (ErrorObject ''dns error: failed to lookup address''))]
     = ''{"error":"Proxy Error","message":"Failed to connect to target server","target":"https://backend.example/base","details":"dns error: failed to lookup address"}''\<close>
    by code_simp
  from upstream_failure [OF c f t] c f t j show ?thesis by simp
qed

subsection \<open>The response after a successful upstream call\<close>

text \<open>What a run that returns the upstream response has done.\<close>

lemma new_Response_Inr:
  "new_Response b st txt hs = Inr r \<Longrightarrow>
   status r = st \<and> body r = b \<and> headers r = hs
     \<and> statusText r = (case txt of None \<Rightarrow> [] | Some t \<Rightarrow> t)"
  by (auto simp: new_Response_def split: if_splits)

lemma handler_returned_upstream:
  assumes "handler P env rq ctx = (Returned r, calls)"
    and "c \<in> set calls" and "fetch P c = Inr upstream"
  obtains t base url h hs where
    "TARGET_URL env = Some t" "URL_new P t = Some base" "URL_new P (req_url rq) = Some url"
    "buildResponseHeaders (headers upstream) (parseCustomHeaders P env) = Inr h"
    "handleRedirect P upstream url base h = Inr hs"
    "new_Response (body upstream) (status upstream) (statusStatusText upstream) hs = Inr r"
proof -
  from assms(1,2) have c: "c \<in> set (snd (handler P env rq ctx))" by simp
  then obtain t base url where
    t: "TARGET_URL env = Some t" "URL_new P t = Some base" "URL_new P (req_url rq) = Some url" and
    f: "fst (handler P env rq ctx) =
       (case fetch P c of
          Inl error \<Rightarrow>
            respond (new_Response
              (Some (JSON_stringify
                 [(''error'', ''Proxy Error''),
                  (''message'', ''Failed to connect to target server''),
                  (''target'', t),
                  (''details'', message_of error)]))
              502 None [(''Content-Type'', ''application/json'')])
        | Inr upstream \<Rightarrow> respond (buildResponse P env url base upstream))"
    by (rule handler_call)
  from f assms(1,3) have "respond (buildResponse P env url base upstream) = Returned r"
    by simp
  then have "buildResponse P env url base upstream = Inr r"
    by (simp add: respond_def split: sum.splits)
  then obtain h hs where
    "buildResponseHeaders (headers upstream) (parseCustomHeaders P env) = Inr h"
    "handleRedirect P upstream url base h = Inr hs"
    "new_Response (body upstream) (status upstream) (statusStatusText upstream) hs = Inr r"
    by (auto simp: buildResponse_def split: sum.splits)
  with t that show thesis by blast
qed

text \<open>When the upstream call succeeds and the handler returns a response, the response
  has the status and the body of the upstream response, whatever the body is.\<close>

lemma status_and_body_passed_through:
  assumes "handler P env rq ctx = (Returned r, calls)"
    and "c \<in> set calls" and "fetch P c = Inr upstream"
  shows "status r = status upstream \<and> body r = body upstream"
proof -
  from assms obtain hs where
    "new_Response (body upstream) (status upstream) (statusStatusText upstream) hs = Inr r"
    by (rule handler_returned_upstream)
  from new_Response_Inr [OF this] show ?thesis by simp
qed

text \<open>
  C9. The status text of the returned response is read from \<^verbatim>\<open>response.statusStatusText\<close>,
  which is undefined for every response; the status text returned is empty, whatever the
  status text of the upstream response is.
\<close>

theorem status_text_not_passed_through:
  assumes "handler P env rq ctx = (Returned r, calls)"
    and "c \<in> set calls" and "fetch P c = Inr upstream"
  shows "statusStatusText upstream = None \<and> statusText r = []"
proof -
  from assms obtain hs where
    "new_Response (body upstream) (status upstream) (statusStatusText upstream) hs = Inr r"
    by (rule handler_returned_upstream)
  from new_Response_Inr [OF this] show ?thesis by (simp add: statusStatusText_def)
qed

lemma example_run_reachable:
  "handler (reference_platform reachable) example_env example_request example_context =
     (Returned example_response, [example_call])"
  by code_simp

theorem status_text_not_passed_through_witness:
  "handler (reference_platform reachable) example_env example_request example_context =
     (Returned example_response, [example_call])
   \<and> example_call \<in> set [example_call]
   \<and> fetch (reference_platform reachable) example_call = Inr example_upstream
   \<and> statusText example_upstream = ''Found''
   \<and> statusText example_response = []"
proof -
  have f: "fetch (reference_platform reachable) example_call = Inr example_upstream"
    by (simp add: reference_platform_def reachable_def)
  have c: "example_call \<in> set [example_call]" by simp
  from status_text_not_passed_through [OF example_run_reachable c f] example_run_reachable c f
  show ?thesis by (simp add: example_upstream_def)
qed

subsection \<open>Response headers\<close>

lemma find_in_set: "find Q xs = Some x \<Longrightarrow> x \<in> set xs"
  by (induction xs) (auto split: if_splits)

lemma set_custom_get:
  "set_custom kvs dst = Inr out \<Longrightarrow>
   get_header out m =
     (case find (\<lambda>kv. toLowerCase (fst kv) = toLowerCase m) (rev kvs) of
        Some kv \<Rightarrow> Some (normalize_value (js_String (snd kv)))
      | None \<Rightarrow> get_header dst m)"
proof (induction kvs arbitrary: dst)
  case Nil
  then show ?case by simp
next
  case (Cons kv rest)
  then obtain dst' where
    s: "Headers_set dst (fst kv) (js_String (snd kv)) = Inr dst'" and
    r: "set_custom rest dst' = Inr out"
    by (auto split: sum.splits)
  from Cons.IH [OF r] get_header_Headers_set [OF s, of m] show ?case
    by (auto simp: find_append_cases split: option.splits)
qed

lemma set_if_absent_get:
  assumes "set_if_absent name v dst = Inr out"
  shows "get_header out m =
     (if toLowerCase m = toLowerCase name \<and> \<not> has_header dst m then Some (normalize_value v)
      else get_header dst m)"
proof (cases "has_header dst name")
  case True
  with assms have "out = dst"
    by (auto simp: set_if_absent_def Headers_has_def split: if_splits)
  with True show ?thesis
    by (auto simp: has_header_cong [of m name])
next
  case False
  with assms have s: "Headers_set dst name v = Inr out"
    by (auto simp: set_if_absent_def Headers_has_def split: if_splits)
  from False get_header_Headers_set [OF s, of m] show ?thesis
    by (auto simp: has_header_cong [of m name])
qed

lemma buildResponseHeaders_steps:
  assumes "buildResponseHeaders upstream customHeaders = Inr out"
  obtains h1 h2 kvs h3 h4 h5 where
    "copy_listed DEFAULT_RESPONSE_HEADERS upstream [] = Inr h1"
    "copy_x_prefixed (Headers_entries upstream) h1 = Inr h2"
    "Object_entries customHeaders = Inr kvs"
    "set_custom kvs h2 = Inr h3"
    "set_if_absent ''Access-Control-Allow-Origin'' ''*'' h3 = Inr h4"
    "set_if_absent ''Access-Control-Allow-Methods''
       ''GET, POST, PUT, DELETE, OPTIONS, HEAD, PATCH'' h4 = Inr h5"
    "set_if_absent ''Access-Control-Allow-Headers''
       ''Authorization, Content-Type, X-Requested-With, X-API-Key, X-Auth-Token'' h5 = Inr out"
  using assms unfolding buildResponseHeaders_def by (auto split: sum.splits)

lemma lower_cors:
  "toLowerCase ''Access-Control-Allow-Origin'' = ''access-control-allow-origin''"
  "toLowerCase ''Access-Control-Allow-Methods'' = ''access-control-allow-methods''"
  "toLowerCase ''Access-Control-Allow-Headers'' = ''access-control-allow-headers''"
  by (simp_all add: toLowerCase_def to_lower_char_def)

lemma normalize_cors:
  "normalize_value ''*'' = ''*''"
  "normalize_value ''GET, POST, PUT, DELETE, OPTIONS, HEAD, PATCH'' =
     ''GET, POST, PUT, DELETE, OPTIONS, HEAD, PATCH''"
  "normalize_value ''Authorization, Content-Type, X-Requested-With, X-API-Key, X-Auth-Token'' =
     ''Authorization, Content-Type, X-Requested-With, X-API-Key, X-Auth-Token''"
  by (simp_all add: normalize_value_def is_http_whitespace_def)

lemma standard_lowercase:
  "listed DEFAULT_RESPONSE_HEADERS n \<longleftrightarrow> toLowerCase n \<in> set DEFAULT_RESPONSE_HEADERS"
  by (simp add: listed_def DEFAULT_RESPONSE_HEADERS_def toLowerCase_def to_lower_char_def)

lemma cors_not_passed:
  assumes "toLowerCase n \<in> set [''access-control-allow-origin'', ''access-control-allow-methods'',
     ''access-control-allow-headers'']"
  shows "toLowerCase n \<notin> set DEFAULT_RESPONSE_HEADERS" "\<not> startsWith (toLowerCase n) ''x-''"
  using assms by (auto simp: DEFAULT_RESPONSE_HEADERS_def startsWith_def)

lemma cors_defaults_get:
  assumes s4: "set_if_absent ''Access-Control-Allow-Origin'' ''*'' h3 = Inr h4"
    and s5: "set_if_absent ''Access-Control-Allow-Methods''
       ''GET, POST, PUT, DELETE, OPTIONS, HEAD, PATCH'' h4 = Inr h5"
    and s6: "set_if_absent ''Access-Control-Allow-Headers''
       ''Authorization, Content-Type, X-Requested-With, X-API-Key, X-Auth-Token'' h5 = Inr out"
  shows "get_header out n =
     (case get_header h3 n of
        Some v \<Rightarrow> Some v
      | None \<Rightarrow>
          if toLowerCase n = ''access-control-allow-origin'' then Some ''*''
          else if toLowerCase n = ''access-control-allow-methods''
            then Some ''GET, POST, PUT, DELETE, OPTIONS, HEAD, PATCH''
          else if toLowerCase n = ''access-control-allow-headers''
            then Some ''Authorization, Content-Type, X-Requested-With, X-API-Key, X-Auth-Token''
          else None)"
proof (cases "get_header h3 n")
  case present: (Some v)
  then have "has_header h3 n" by (simp add: has_header_get)
  with present set_if_absent_get [OF s4, of n] have g4: "get_header h4 n = Some v" by simp
  then have "has_header h4 n" by (simp add: has_header_get)
  with g4 set_if_absent_get [OF s5, of n] have g5: "get_header h5 n = Some v" by simp
  then have "has_header h5 n" by (simp add: has_header_get)
  with g5 set_if_absent_get [OF s6, of n] have "get_header out n = Some v" by simp
  with present show ?thesis by simp
next
  case absent: None
  then have a3: "\<not> has_header h3 n" by (simp add: has_header_get)
  let ?o = "toLowerCase ''Access-Control-Allow-Origin''"
  let ?m = "toLowerCase ''Access-Control-Allow-Methods''"
  let ?h = "toLowerCase ''Access-Control-Allow-Headers''"
  have distinct_names: "?o \<noteq> ?m" "?o \<noteq> ?h" "?m \<noteq> ?h"
    by (simp_all add: lower_cors)
  have g4: "get_header h4 n = (if toLowerCase n = ?o then Some ''*'' else None)"
    using set_if_absent_get [OF s4, of n] a3 absent by (simp add: normalize_cors)
  have g5: "get_header h5 n =
      (if toLowerCase n = ?o then Some ''*''
       else if toLowerCase n = ?m then Some ''GET, POST, PUT, DELETE, OPTIONS, HEAD, PATCH''
       else None)"
    using set_if_absent_get [OF s5, of n] g4 distinct_names
    by (auto simp: normalize_cors has_header_get)
  have g6: "get_header out n =
      (if toLowerCase n = ?o then Some ''*''
       else if toLowerCase n = ?m then Some ''GET, POST, PUT, DELETE, OPTIONS, HEAD, PATCH''
       else if toLowerCase n = ?h
         then Some ''Authorization, Content-Type, X-Requested-With, X-API-Key, X-Auth-Token''
       else None)"
    using set_if_absent_get [OF s6, of n] g5 distinct_names
    by (auto simp: normalize_cors has_header_get)
  from g6 [unfolded lower_cors] absent show ?thesis by simp
qed

text \<open>
  C3, as amended. The headers of the client's response before the redirect step, name
  by name, with \<open>kvs\<close> the entries of the custom headers:
  \<^item> a name among the custom entries has the value of its last entry, converted to a
    string, whatever the upstream response or the defaults say;
  \<^item> else a standard response header whose upstream value is present and not empty has
    that value, as \<^verbatim>\<open>Headers.get\<close> reports it;
  \<^item> else a name that starts with \<^verbatim>\<open>x-\<close> has the value that iteration over the upstream
    headers reports for it, and is absent when the upstream has no header of that name;
  \<^item> else each of the three CORS names has its default;
  \<^item> every other name is absent.
  Every value that is set arrives with the white space at its ends stripped, as
  \<^verbatim>\<open>Headers.set\<close> strips it. A standard header that the upstream sends with an empty value is
  not copied, which is where the claim as stated fails. This holds whenever the headers
  are built, for every upstream header list and all custom headers.
\<close>

theorem response_headers_precedence:
  assumes "buildResponseHeaders upstream customHeaders = Inr out"
  shows "\<exists>kvs. Object_entries customHeaders = Inr kvs \<and>
     (\<forall>n. get_header out n =
       (case find (\<lambda>kv. toLowerCase (fst kv) = toLowerCase n) (rev kvs) of
          Some kv \<Rightarrow> Some (normalize_value (js_String (snd kv)))
        | None \<Rightarrow>
            if toLowerCase n \<in> set DEFAULT_RESPONSE_HEADERS \<and> truthy (get_header upstream n)
            then map_option normalize_value (get_header upstream n)
            else if startsWith (toLowerCase n) ''x-''
            then map_option normalize_value (entry_value upstream n)
            else if toLowerCase n = ''access-control-allow-origin'' then Some ''*''
            else if toLowerCase n = ''access-control-allow-methods''
              then Some ''GET, POST, PUT, DELETE, OPTIONS, HEAD, PATCH''
            else if toLowerCase n = ''access-control-allow-headers''
              then Some ''Authorization, Content-Type, X-Requested-With, X-API-Key, X-Auth-Token''
            else None))"
proof -
  from assms obtain h1 h2 kvs h3 h4 h5 where
    s1: "copy_listed DEFAULT_RESPONSE_HEADERS upstream [] = Inr h1" and
    s2: "copy_x_prefixed (Headers_entries upstream) h1 = Inr h2" and
    e: "Object_entries customHeaders = Inr kvs" and
    s3: "set_custom kvs h2 = Inr h3" and
    s4: "set_if_absent ''Access-Control-Allow-Origin'' ''*'' h3 = Inr h4" and
    s5: "set_if_absent ''Access-Control-Allow-Methods''
       ''GET, POST, PUT, DELETE, OPTIONS, HEAD, PATCH'' h4 = Inr h5" and
    s6: "set_if_absent ''Access-Control-Allow-Headers''
       ''Authorization, Content-Type, X-Requested-With, X-API-Key, X-Auth-Token'' h5 = Inr out"
    by (rule buildResponseHeaders_steps)
  have "get_header out n =
       (case find (\<lambda>kv. toLowerCase (fst kv) = toLowerCase n) (rev kvs) of
          Some kv \<Rightarrow> Some (normalize_value (js_String (snd kv)))
        | None \<Rightarrow>
            if toLowerCase n \<in> set DEFAULT_RESPONSE_HEADERS \<and> truthy (get_header upstream n)
            then map_option normalize_value (get_header upstream n)
            else if startsWith (toLowerCase n) ''x-''
            then map_option normalize_value (entry_value upstream n)
            else if toLowerCase n = ''access-control-allow-origin'' then Some ''*''
            else if toLowerCase n = ''access-control-allow-methods''
              then Some ''GET, POST, PUT, DELETE, OPTIONS, HEAD, PATCH''
            else if toLowerCase n = ''access-control-allow-headers''
              then Some ''Authorization, Content-Type, X-Requested-With, X-API-Key, X-Auth-Token''
            else None)" for n
  proof -
    let ?std = "toLowerCase n \<in> set DEFAULT_RESPONSE_HEADERS \<and> truthy (get_header upstream n)"
    let ?x = "startsWith (toLowerCase n) ''x-''"
    have g2: "get_header h2 n =
       (if ?std then map_option normalize_value (get_header upstream n)
        else if ?x then map_option normalize_value (entry_value upstream n)
        else None)"
      using copied_headers_get [OF s1 s2, of n] by (simp add: standard_lowercase)
    note g3 = set_custom_get [OF s3, of n]
    note g = cors_defaults_get [OF s4 s5 s6, of n]
    show ?thesis
    proof (cases "find (\<lambda>kv. toLowerCase (fst kv) = toLowerCase n) (rev kvs)")
      case (Some kv)
      with g3 have "get_header h3 n = Some (normalize_value (js_String (snd kv)))" by simp
      with g Some show ?thesis by simp
    next
      case None
      with g3 have e3: "get_header h3 n = get_header h2 n" by simp
      show ?thesis
      proof (cases ?std)
        case True
        then obtain v where v: "get_header upstream n = Some v" by (auto simp: truthy_def)
        from True have "get_header h2 n = map_option normalize_value (get_header upstream n)"
          by (simp add: g2)
        with e3 v have "get_header h3 n = Some (normalize_value v)" by simp
        with g have "get_header out n = Some (normalize_value v)" by simp
        moreover from True have "(if ?std then a else b) = a" for a b :: "string option"
          by (rule if_P)
        ultimately show ?thesis using None v by simp
      next
        case False
        then have nstd: "(if ?std then a else b) = b" for a b :: "string option"
          by (rule if_not_P)
        show ?thesis
        proof (cases ?x)
          case True
          then have nc: "toLowerCase n \<noteq> ''access-control-allow-origin''"
            "toLowerCase n \<noteq> ''access-control-allow-methods''"
            "toLowerCase n \<noteq> ''access-control-allow-headers''"
            by (auto simp: startsWith_def)
          from True have "get_header h2 n = map_option normalize_value (entry_value upstream n)"
            by (simp add: g2 nstd)
          with e3 have h3: "get_header h3 n = map_option normalize_value (entry_value upstream n)"
            by simp
          have "get_header out n = map_option normalize_value (entry_value upstream n)"
          proof (cases "entry_value upstream n")
            case None
            with h3 g nc show ?thesis by simp
          next
            case (Some w)
            with h3 g show ?thesis by simp
          qed
          with None True show ?thesis by (simp add: nstd)
        next
          case nx: False
          then have "get_header h2 n = None" by (simp add: g2 nstd)
          with e3 have "get_header h3 n = None" by simp
          with g None nx show ?thesis by (simp add: nstd)
        qed
      qed
    qed
  qed
  with e show ?thesis by blast
qed

theorem response_headers_precedence_witness:
  "buildResponseHeaders (headers example_upstream) example_custom = Inr example_built
   \<and> Object_entries example_custom =
       Inr [(''X-Foo'', JStr ''bar''), (''Access-Control-Allow-Origin'', JStr ''https://app.example'')]
   \<and> get_header (headers example_upstream) ''X-Foo'' = Some ''upstream''
   \<and> get_header example_built ''X-Foo'' = Some ''bar''
   \<and> get_header example_built ''Content-Type'' = Some ''text/html''
   \<and> get_header example_built ''Set-Cookie'' = None
   \<and> get_header example_built ''Access-Control-Allow-Origin'' = Some ''https://app.example''
   \<and> get_header example_built ''Access-Control-Allow-Methods'' =
       Some ''GET, POST, PUT, DELETE, OPTIONS, HEAD, PATCH''
   \<and> buildResponseHeaders [(''X-A'', []), (''X-A'', ''1'')] (JObj [(''X-B'', JStr '' b'')]) =
       Inr ([(''x-a'', ''1''), (''X-B'', ''b'')] @ example_cors)
   \<and> get_header ([(''x-a'', ''1''), (''X-B'', ''b'')] @ example_cors) ''X-A'' = Some ''1''
   \<and> get_header ([(''x-a'', ''1''), (''X-B'', ''b'')] @ example_cors) ''X-B'' = Some ''b''"
proof -
  let ?kvs = "[(''X-Foo'', JStr ''bar''),
    (''Access-Control-Allow-Origin'', JStr ''https://app.example'')]"
  let ?up = "headers example_upstream"
  let ?rhs = "\<lambda>up kvs n. (case find (\<lambda>kv. toLowerCase (fst kv) = toLowerCase n) (rev kvs) of
          Some kv \<Rightarrow> Some (normalize_value (js_String (snd kv)))
        | None \<Rightarrow>
            if toLowerCase n \<in> set DEFAULT_RESPONSE_HEADERS \<and> truthy (get_header up n)
            then map_option normalize_value (get_header up n)
            else if startsWith (toLowerCase n) ''x-''
            then map_option normalize_value (entry_value up n)
            else if toLowerCase n = ''access-control-allow-origin'' then Some ''*''
            else if toLowerCase n = ''access-control-allow-methods''
              then Some ''GET, POST, PUT, DELETE, OPTIONS, HEAD, PATCH''
            else if toLowerCase n = ''access-control-allow-headers''
              then Some ''Authorization, Content-Type, X-Requested-With, X-API-Key, X-Auth-Token''
            else None)"
  let ?up2 = "[(''X-A'', []), (''X-A'', ''1'')]"
  let ?kvs2 = "[(''X-B'', JStr '' b'')]"
  let ?out2 = "[(''x-a'', ''1''), (''X-B'', ''b'')] @ example_cors"
  have b: "buildResponseHeaders ?up example_custom = Inr example_built"
    by code_simp
  have e: "Object_entries example_custom = Inr ?kvs"
    by code_simp
  have b2: "buildResponseHeaders ?up2 (JObj ?kvs2) = Inr ?out2"
    by code_simp
  have e2: "Object_entries (JObj ?kvs2) = Inr ?kvs2"
    by code_simp
  from response_headers_precedence [OF b] obtain kvs where
    "Object_entries example_custom = Inr kvs" and
    r: "\<And>n. get_header example_built n = ?rhs ?up kvs n"
    by blast
  with e have k: "kvs = ?kvs" by simp
  from response_headers_precedence [OF b2] obtain kvs' where
    "Object_entries (JObj ?kvs2) = Inr kvs'" and
    r2: "\<And>n. get_header ?out2 n = ?rhs ?up2 kvs' n"
    by blast
  with e2 have k2: "kvs' = ?kvs2" by simp
  have v: "?rhs ?up ?kvs ''X-Foo'' = Some ''bar''" "?rhs ?up ?kvs ''Content-Type'' = Some ''text/html''"
    "?rhs ?up ?kvs ''Set-Cookie'' = None"
    "?rhs ?up ?kvs ''Access-Control-Allow-Origin'' = Some ''https://app.example''"
    "?rhs ?up ?kvs ''Access-Control-Allow-Methods'' =
       Some ''GET, POST, PUT, DELETE, OPTIONS, HEAD, PATCH''"
    "?rhs ?up2 ?kvs2 ''X-A'' = Some ''1''" "?rhs ?up2 ?kvs2 ''X-B'' = Some ''b''"
    by code_simp+
  have u: "get_header ?up ''X-Foo'' = Some ''upstream''"
    by code_simp
  have r1: "get_header example_built ''X-Foo'' = Some ''bar''"
    "get_header example_built ''Content-Type'' = Some ''text/html''"
    "get_header example_built ''Set-Cookie'' = None"
    "get_header example_built ''Access-Control-Allow-Origin'' = Some ''https://app.example''"
    "get_header example_built ''Access-Control-Allow-Methods'' =
       Some ''GET, POST, PUT, DELETE, OPTIONS, HEAD, PATCH''"
    unfolding r k by (rule v)+
  have r3: "get_header ?out2 ''X-A'' = Some ''1''" "get_header ?out2 ''X-B'' = Some ''b''"
    unfolding r2 k2 by (rule v)+
  from b e u r1 b2 r3 show ?thesis by blast
qed

text \<open>The claim as stated copies every standard header that is present. The upstream
  response here has an \<^verbatim>\<open>ETag\<close> header, with an empty value; the built headers have none.\<close>

theorem empty_standard_header_counterexample:
  "get_header [(''ETag'', [])] ''ETag'' = Some []
   \<and> toLowerCase ''ETag'' \<in> set DEFAULT_RESPONSE_HEADERS
   \<and> buildResponseHeaders [(''ETag'', [])] (JObj []) = Inr example_cors
   \<and> get_header example_cors ''ETag'' = None"
  by code_simp

subsection \<open>The location header\<close>

lemma header_name_location: "header_name ''location''" "header_name ''Location''"
  by (simp_all add: header_name_def is_tchar_def tchars_def)



subsection \<open>Custom headers that are not an object\<close>

lemma null_custom_headers_never_built:
  "\<exists>e. buildResponseHeaders upstream JNull = Inl e"
  by (simp add: buildResponseHeaders_def Object_entries_def split: sum.splits)

text \<open>
  C7. \<^verbatim>\<open>parseCustomHeaders\<close> catches a syntax error only. With \<^verbatim>\<open>CUSTOM_HEADERS=null\<close> the
  parse succeeds, the resolved value is \<^verbatim>\<open>null\<close> and not the empty mapping, and
  \<^verbatim>\<open>Object.entries\<close> throws a \<^verbatim>\<open>TypeError\<close> in every request that reached the upstream. With
  \<^verbatim>\<open>CUSTOM_HEADERS="ok"\<close> the resolved value is a string, whose entries are its characters.
\<close>

theorem custom_headers_null_throws:
  \<open>JSON_parse (reference_platform reachable) ''null'' = Some JNull
   \<and> parseCustomHeaders (reference_platform reachable)
        (example_env\<lparr>env_CUSTOM_HEADERS := Some ''null''\<rparr>) = JNull
   \<and> handler (reference_platform reachable)
        (example_env\<lparr>env_CUSTOM_HEADERS := Some ''null''\<rparr>) example_request example_context =
       (Threw TypeError, [example_call])
   \<and> parseCustomHeaders (reference_platform reachable)
        (example_env\<lparr>env_CUSTOM_HEADERS := Some ''"ok"''\<rparr>) = JStr ''ok''
   \<and> Object_entries (JStr ''ok'') = Inr [(''0'', JStr ''o''), (''1'', JStr ''k'')]\<close>
  by code_simp

subsection \<open>The upstream URL\<close>

text \<open>
  C10. The upstream URL is \<^verbatim>\<open>new URL(url.pathname + url.search, targetBaseUrl)\<close>. A path that
  starts with two slashes is a scheme-relative reference: resolving it keeps only the
  scheme of the target and takes the host from the path. The request for
  \<^verbatim>\<open>https://proxy.example//evil.example/x?y=1\<close> is sent to \<^verbatim>\<open>evil.example\<close>, with the \<^verbatim>\<open>Host\<close> header
  of the target.
\<close>

theorem upstream_url_leaves_target_origin:
  "URL_new (reference_platform unreachable) ''https://backend.example/base'' = Some example_base
   \<and> origin example_base = ''https://backend.example''
   \<and> URL_new (reference_platform unreachable) ''https://proxy.example//evil.example/x?y=1'' =
       Some \<lparr>href = ''https://proxy.example//evil.example/x?y=1'',
             origin = ''https://proxy.example'', protocol = ''https:'', host = ''proxy.example'',
             pathname = ''//evil.example/x'', search = ''?y=1''\<rparr>
   \<and> snd (handler (reference_platform unreachable) example_env
          (example_request\<lparr>req_url := ''https://proxy.example//evil.example/x?y=1''\<rparr>)
          example_context) =
       [example_call\<lparr>fetch_url := ''https://evil.example/x?y=1''\<rparr>]
   \<and> get_header (fetch_headers example_call) ''Host'' = Some ''backend.example''"
  by code_simp

subsection \<open>When the handler returns\<close>

text \<open>\<^verbatim>\<open>Headers.set\<close> accepts every value that is free of NUL, line feed and carriage
  return: stripping the white space at its ends makes it a header value.\<close>

lemma last_dropWhile: "dropWhile Q xs \<noteq> [] \<Longrightarrow> last (dropWhile Q xs) = last xs"
proof -
  assume a: "dropWhile Q xs \<noteq> []"
  have "xs = takeWhile Q xs @ dropWhile Q xs" by simp
  then have "last xs = last (takeWhile Q xs @ dropWhile Q xs)" by simp
  also from a have "\<dots> = last (dropWhile Q xs)" by (rule last_appendR)
  finally show ?thesis by simp
qed

lemma normalize_value_ends:
  "normalize_value v = [] \<or>
     (\<not> is_http_whitespace (hd (normalize_value v)) \<and> \<not> is_http_whitespace (last (normalize_value v)))"
proof (cases "normalize_value v = []")
  case True
  then show ?thesis by simp
next
  case False
  let ?u = "dropWhile is_http_whitespace v"
  let ?d = "dropWhile is_http_whitespace (rev ?u)"
  from False have d: "?d \<noteq> []" by (simp add: normalize_value_def)
  have u: "?u \<noteq> []"
  proof
    assume "?u = []"
    with d show False by simp
  qed
  have "last (normalize_value v) = hd ?d"
    using d by (simp add: normalize_value_def last_rev)
  moreover from d have "\<not> is_http_whitespace (hd ?d)" by (rule hd_dropWhile)
  moreover have "hd (normalize_value v) = last ?d"
    using d by (simp add: normalize_value_def hd_rev)
  moreover from d have "last ?d = last (rev ?u)" by (rule last_dropWhile)
  moreover from u have "last (rev ?u) = hd ?u" by (simp add: last_rev)
  moreover from u have "\<not> is_http_whitespace (hd ?u)" by (rule hd_dropWhile)
  ultimately show ?thesis by simp
qed

lemma normalize_value_fixed:
  assumes "v = [] \<or> (\<not> is_http_whitespace (hd v) \<and> \<not> is_http_whitespace (last v))"
  shows "normalize_value v = v"
proof (cases "v = []")
  case True
  then show ?thesis by (simp add: normalize_value_def)
next
  case False
  with assms have h: "\<not> is_http_whitespace (hd v)" and l: "\<not> is_http_whitespace (last v)"
    by auto
  from False h have "dropWhile is_http_whitespace v = v"
    by (cases v) auto
  moreover from False l have "dropWhile is_http_whitespace (rev v) = rev v"
    by (cases "rev v") (auto simp: hd_rev [symmetric])
  ultimately show ?thesis by (simp add: normalize_value_def)
qed

lemma normalize_value_idem [simp]: "normalize_value (normalize_value v) = normalize_value v"
  by (rule normalize_value_fixed) (rule normalize_value_ends)

lemma clean_dropWhile: "clean v \<Longrightarrow> clean (dropWhile Q v)"
  unfolding clean_def list_all_iff by (blast dest: set_dropWhileD)

lemma clean_rev: "clean (rev v) = clean v"
  unfolding clean_def list_all_iff by simp

lemma clean_normalize: "clean v \<Longrightarrow> clean (normalize_value v)"
  unfolding normalize_value_def by (simp only: clean_rev clean_dropWhile)

lemma header_value_normalize: "clean v \<Longrightarrow> header_value (normalize_value v)"
  using clean_normalize [of v] by (simp add: header_value_def clean_def)

lemma header_value_clean: "header_value v \<Longrightarrow> clean v"
  by (simp add: header_value_def clean_def)

lemma clean_append: "clean (a @ b) \<longleftrightarrow> clean a \<and> clean b"
  unfolding clean_def by simp

lemma clean_join: "list_all clean vs \<Longrightarrow> clean sep \<Longrightarrow> clean (join_with sep vs)"
  by (induction sep vs rule: join_with.induct) (simp_all add: clean_append, simp add: clean_def)

lemma clean_comma_space: "clean '', ''"
  by (simp add: clean_def)

lemma clean_foldl_combine:
  "clean acc \<Longrightarrow> list_all clean vs \<Longrightarrow>
   clean (foldl (\<lambda>acc v. if acc = [] then v else acc @ '', '' @ v) acc vs)"
proof (induction vs arbitrary: acc)
  case Nil
  then show ?case by simp
next
  case (Cons v vs)
  from Cons.prems have "clean (if acc = [] then v else acc @ '', '' @ v)"
    by (simp add: clean_def)
  with Cons.prems show ?case by (simp add: Cons.IH)
qed

lemma clean_combined: "list_all clean vs \<Longrightarrow> clean (combined_value vs)"
  unfolding combined_value_def by (rule clean_foldl_combine) (simp_all add: clean_def)

lemma header_values_clean:
  assumes "headers_ok h"
  shows "list_all clean (header_values h n)"
proof -
  have "clean v" if "v \<in> set (header_values h n)" for v
  proof -
    from that obtain k where "(k, v) \<in> set h" by (auto simp: header_values_def)
    with assms have "header_value v" by (auto simp: headers_ok_def list_all_iff)
    then show ?thesis by (rule header_value_clean)
  qed
  then show ?thesis by (simp add: list_all_iff)
qed

lemma get_header_clean:
  assumes "headers_ok h" and "get_header h n = Some v"
  shows "clean v"
proof -
  from assms(2) have "v = join_with '', '' (header_values h n)"
    by (simp add: get_header_def split: list.splits)
  with clean_join [OF header_values_clean [OF assms(1)] clean_comma_space, of n]
  show ?thesis by simp
qed

lemma Headers_set_succeeds:
  "header_name n \<Longrightarrow> clean v \<Longrightarrow> Headers_set h n v = Inr (set_header h n (normalize_value v))"
  by (simp add: Headers_set_def header_value_normalize)

lemma copy_listed_succeeds:
  "list_all header_name names \<Longrightarrow> headers_ok src \<Longrightarrow> \<exists>out. copy_listed names src dst = Inr out"
proof (induction names arbitrary: dst)
  case Nil
  then show ?case by simp
next
  case (Cons header rest)
  then have n: "header_name header" and IH: "\<exists>out. copy_listed rest src d = Inr out" for d
    by auto
  show ?case
  proof (cases "get_header src header")
    case None
    with n IH show ?thesis by (simp add: Headers_get_def)
  next
    case (Some v)
    with Cons.prems have "clean v" by (auto intro: get_header_clean)
    with n Some IH show ?thesis by (simp add: Headers_get_def Headers_set_succeeds)
  qed
qed

lemma copy_x_prefixed_succeeds:
  "list_all (\<lambda>kv. header_name (fst kv) \<and> clean (snd kv)) es \<Longrightarrow>
   \<exists>out. copy_x_prefixed es dst = Inr out"
proof (induction es arbitrary: dst)
  case Nil
  then show ?case by simp
next
  case (Cons kv rest)
  then have n: "header_name (fst kv)" and c: "clean (snd kv)"
    and IH: "\<exists>out. copy_x_prefixed rest d = Inr out" for d
    by auto
  from n c IH show ?case
    by (cases "has_header dst (fst kv)") (simp_all add: Headers_has_def Headers_set_succeeds)
qed

lemma tchars_lower: "list_all (\<lambda>c. is_tchar (to_lower_char c)) tchars"
  by code_simp

lemma is_tchar_lower: "is_tchar c \<Longrightarrow> is_tchar (to_lower_char c)"
  using tchars_lower by (simp add: is_tchar_def list_all_iff)

lemma header_name_lower: "header_name n \<Longrightarrow> header_name (toLowerCase n)"
  by (auto simp: header_name_def toLowerCase_def list_all_iff is_tchar_lower)

lemma entries_ok:
  assumes "headers_ok h"
  shows "list_all (\<lambda>kv. header_name (fst kv) \<and> clean (snd kv)) (Headers_entries h)"
proof -
  have names: "header_name n"
    if "n \<in> set (sort (remdups (map (\<lambda>kv. toLowerCase (fst kv)) h)))" for n
    using that assms by (auto simp: headers_ok_def list_all_iff header_name_lower)
  have "header_name (fst kv) \<and> clean (snd kv)" if "kv \<in> set (entries_of h n)" "header_name n" for kv n
  proof (cases "n = ''set-cookie''")
    case True
    with that header_values_clean [OF assms, of n] show ?thesis
      by (auto simp: entries_of_def list_all_iff)
  next
    case False
    with that clean_combined [OF header_values_clean [OF assms], of n] show ?thesis
      by (auto simp: entries_of_def)
  qed
  with names show ?thesis
    unfolding Headers_entries_concat by (auto simp: list_all_iff)
qed

lemma clean_takeWhile: "clean v \<Longrightarrow> clean (takeWhile Q v)"
  unfolding clean_def list_all_iff by (blast dest: set_takeWhileD)

lemma clean_drop: "clean v \<Longrightarrow> clean (drop k v)"
  unfolding clean_def list_all_iff by (blast dest: in_set_dropD)

lemma clean_replace_colon: "clean v \<Longrightarrow> clean (replace_colon v)"
  unfolding replace_colon_def by (simp add: clean_append clean_takeWhile clean_drop clean_dropWhile)

lemma forwarding_names:
  "header_name ''X-Forwarded-For''" "header_name ''X-Forwarded-Proto''"
  "header_name ''X-Forwarded-Host''" "header_name ''Host''"
  by (simp_all add: header_name_def is_tchar_def tchars_def)

lemma buildRequestHeaders_succeeds:
  assumes "list_all header_name allowed" and "headers_ok inbound"
    and "clean client_ip" and "clean (protocol url)" and "clean (host url)"
    and "clean (host targetBaseUrl)"
  shows "\<exists>out. buildRequestHeaders allowed inbound client_ip url targetBaseUrl = Inr out"
proof -
  from copy_listed_succeeds [OF assms(1,2)] obtain h1 where
    h1: "copy_listed allowed inbound [] = Inr h1" by blast
  from copy_x_prefixed_succeeds [OF entries_ok [OF assms(2)]] obtain h2 where
    h2: "copy_x_prefixed (Headers_entries inbound) h1 = Inr h2" by blast
  from h1 h2 assms(3-6) show ?thesis
    by (simp add: buildRequestHeaders_def Headers_set_succeeds forwarding_names
        clean_replace_colon)
qed

lemma set_custom_succeeds:
  "list_all (\<lambda>kv. header_name (fst kv) \<and> clean (js_String (snd kv))) kvs \<Longrightarrow>
   \<exists>out. set_custom kvs dst = Inr out"
  by (induction kvs arbitrary: dst) (simp_all add: Headers_set_succeeds)

lemma set_if_absent_succeeds:
  "header_name name \<Longrightarrow> clean v \<Longrightarrow> \<exists>out. set_if_absent name v dst = Inr out"
  by (cases "has_header dst name")
    (simp_all add: set_if_absent_def Headers_has_def Headers_set_succeeds)

lemma cors_names:
  "header_name ''Access-Control-Allow-Origin''" "header_name ''Access-Control-Allow-Methods''"
  "header_name ''Access-Control-Allow-Headers''"
  by (simp_all add: header_name_def is_tchar_def tchars_def)

lemma cors_values:
  "clean ''*''" "clean ''GET, POST, PUT, DELETE, OPTIONS, HEAD, PATCH''"
  "clean ''Authorization, Content-Type, X-Requested-With, X-API-Key, X-Auth-Token''"
  by (simp_all add: clean_def)

lemma standard_names: "list_all header_name DEFAULT_RESPONSE_HEADERS"
  by (simp add: DEFAULT_RESPONSE_HEADERS_def header_name_def is_tchar_def tchars_def)

lemma buildResponseHeaders_succeeds:
  assumes "headers_ok upstream" and "Object_entries customHeaders = Inr kvs"
    and "list_all (\<lambda>kv. header_name (fst kv) \<and> clean (js_String (snd kv))) kvs"
  shows "\<exists>out. buildResponseHeaders upstream customHeaders = Inr out"
proof -
  from copy_listed_succeeds [OF standard_names assms(1)] obtain h1 where
    h1: "copy_listed DEFAULT_RESPONSE_HEADERS upstream [] = Inr h1" by blast
  from copy_x_prefixed_succeeds [OF entries_ok [OF assms(1)]] obtain h2 where
    h2: "copy_x_prefixed (Headers_entries upstream) h1 = Inr h2" by blast
  from set_custom_succeeds [OF assms(3)] obtain h3 where
    h3: "set_custom kvs h2 = Inr h3" by blast
  from set_if_absent_succeeds [OF cors_names(1) cors_values(1)] obtain h4 where
    h4: "set_if_absent ''Access-Control-Allow-Origin'' ''*'' h3 = Inr h4" by blast
  from set_if_absent_succeeds [OF cors_names(2) cors_values(2)] obtain h5 where
    h5: "set_if_absent ''Access-Control-Allow-Methods''
       ''GET, POST, PUT, DELETE, OPTIONS, HEAD, PATCH'' h4 = Inr h5" by blast
  from set_if_absent_succeeds [OF cors_names(3) cors_values(3)] obtain h6 where
    h6: "set_if_absent ''Access-Control-Allow-Headers''
       ''Authorization, Content-Type, X-Requested-With, X-API-Key, X-Auth-Token'' h5 = Inr h6"
    by blast
  from h1 h2 assms(2) h3 h4 h5 h6 show ?thesis
    by (simp add: buildResponseHeaders_def)
qed

lemma handleRedirect_succeeds:
  assumes "headers_ok (headers upstream)"
  shows "\<exists>hs. handleRedirect P upstream url targetBaseUrl h = Inr hs"
proof (cases "get_header (headers upstream) ''location''")
  case None
  then show ?thesis
    by (simp add: handleRedirect_def Headers_get_def header_name_location)
next
  case (Some location)
  with assms have "clean location" by (auto intro: get_header_clean)
  then have s: "Headers_set h ''Location'' location =
      Inr (set_header h ''Location'' (normalize_value location))"
    by (simp add: Headers_set_succeeds header_name_location)
  show ?thesis
  proof (cases "rewrite_location P location url targetBaseUrl h")
    case (Inl e)
    with Some s show ?thesis
      by (simp add: handleRedirect_def Headers_get_def header_name_location)
  next
    case (Inr hs)
    with Some show ?thesis
      by (simp add: handleRedirect_def Headers_get_def header_name_location)
  qed
qed

text \<open>A run that reaches the upstream returns the upstream's status and body whenever the
  platform can build the response: the headers of the upstream response are well formed,
  as those of every \<^verbatim>\<open>Headers\<close> object are, the custom headers have entries whose names
  and values \<^verbatim>\<open>Headers.set\<close> accepts, and the \<^verbatim>\<open>Response\<close> constructor accepts the status.\<close>

lemma handler_returns_response:
  assumes "c \<in> set (snd (handler P env rq ctx))" and "fetch P c = Inr upstream"
    and "headers_ok (headers upstream)"
    and "Object_entries (parseCustomHeaders P env) = Inr kvs"
    and "list_all (\<lambda>kv. header_name (fst kv) \<and> clean (js_String (snd kv))) kvs"
    and "200 \<le> status upstream" and "status upstream \<le> 599"
    and "body upstream = None \<or> \<not> null_body_status (status upstream)"
  shows "\<exists>r. handler P env rq ctx = (Returned r, [c])
           \<and> status r = status upstream \<and> body r = body upstream"
proof -
  from assms(1) obtain t url base where
    s: "snd (handler P env rq ctx) = [c]" and
    f: "fst (handler P env rq ctx) =
       (case fetch P c of
          Inl error \<Rightarrow>
            respond (new_Response
              (Some (JSON_stringify
                 [(''error'', ''Proxy Error''),
                  (''message'', ''Failed to connect to target server''),
                  (''target'', t),
                  (''details'', message_of error)]))
              502 None [(''Content-Type'', ''application/json'')])
        | Inr upstream \<Rightarrow> respond (buildResponse P env url base upstream))"
    by (rule handler_call)
  from buildResponseHeaders_succeeds [OF assms(3-5)] obtain hd where
    hd: "buildResponseHeaders (headers upstream) (parseCustomHeaders P env) = Inr hd" by blast
  from handleRedirect_succeeds [OF assms(3)] obtain hs where
    hs: "handleRedirect P upstream url base hd = Inr hs" by blast
  let ?r = "\<lparr>status = status upstream, statusText = [], headers = hs, body = body upstream\<rparr>"
  from assms(6-8) have
    "new_Response (body upstream) (status upstream) (statusStatusText upstream) hs = Inr ?r"
    by (auto simp: new_Response_def statusStatusText_def)
  with hd hs have "buildResponse P env url base upstream = Inr ?r"
    by (simp add: buildResponse_def)
  with f assms(2) have "fst (handler P env rq ctx) = Returned ?r"
    by (simp add: respond_def)
  with s have "handler P env rq ctx = (Returned ?r, [c])" by (simp add: prod_eq_iff)
  then show ?thesis by simp
qed

text \<open>A run reaches the upstream whenever the target and the request's URL parse, the
  path resolves against the target, and \<^verbatim>\<open>Headers\<close> accepts the allowed names and the
  forwarding values.\<close>

lemma handler_reaches_upstream:
  assumes "TARGET_URL env = Some t" and "t \<noteq> []" and "URL_new P t = Some targetBaseUrl"
    and "URL_new P (req_url rq) = Some url"
    and "URL_new_base P (pathname url @ search url) targetBaseUrl = Some targetUrl"
    and "list_all header_name (getAllowedRequestHeaders P env)"
    and "headers_ok (req_headers rq)"
    and "clean (ip ctx)" and "clean (protocol url)" and "clean (host url)"
    and "clean (host targetBaseUrl)"
  shows "\<exists>hs. snd (handler P env rq ctx) =
           [\<lparr>fetch_url = href targetUrl, fetch_method = req_method rq,
             fetch_headers = hs, fetch_body = req_body rq, fetch_redirect = ''manual''\<rparr>]"
proof -
  from buildRequestHeaders_succeeds [OF assms(6-11)] obtain hs where
    "buildRequestHeaders (getAllowedRequestHeaders P env) (req_headers rq) (ip ctx) url
       targetBaseUrl = Inr hs" by blast
  with assms(1-5) show ?thesis
    by (auto simp: handler_def forward_def Let_def split: sum.splits)
qed

subsection \<open>Redirects\<close>







subsection \<open>Status and body\<close>

text \<open>
  C8. The client's response is built by \<^verbatim>\<open>new Response(response.body, {status:
  response.status, ...})\<close> at line 226, after the custom headers were set at line 187, both
  outside any \<^verbatim>\<open>try\<close>. The constructor throws a \<^verbatim>\<open>RangeError\<close> for a status outside
  200..599; \<^verbatim>\<open>Headers.set\<close> throws a \<^verbatim>\<open>TypeError\<close> for a custom header whose name is not a
  token; \<^verbatim>\<open>Object.entries\<close> throws a \<^verbatim>\<open>TypeError\<close> for \<^verbatim>\<open>CUSTOM_HEADERS=null\<close>. In the three
  runs below the upstream call succeeded, with status 999 in the first and with status
  200 and a body in the others, and the handler throws: the client gets no response,
  so none with the status and the body of the upstream.
\<close>

theorem upstream_status_not_passed_through:
  \<open>fetch (reference_platform (answering (plain_response 999))) example_call =
     Inr (plain_response 999)
   \<and> status (plain_response 999) = 999
   \<and> handler (reference_platform (answering (plain_response 999))) example_env example_request
         example_context =
       (Threw RangeError, [example_call])
   \<and> fetch (reference_platform (answering (plain_response 200))) example_call =
       Inr (plain_response 200)
   \<and> status (plain_response 200) = 200 \<and> body (plain_response 200) = Some ''ok''
   \<and> parseCustomHeaders (reference_platform (answering (plain_response 200)))
         (example_env\<lparr>env_CUSTOM_HEADERS := Some ''{"Bad Name":"v"}''\<rparr>) =
       JObj [(''Bad Name'', JStr ''v'')]
   \<and> handler (reference_platform (answering (plain_response 200)))
         (example_env\<lparr>env_CUSTOM_HEADERS := Some ''{"Bad Name":"v"}''\<rparr>) example_request
         example_context =
       (Threw TypeError, [example_call])
   \<and> handler (reference_platform (answering (plain_response 200)))
         (example_env\<lparr>env_CUSTOM_HEADERS := Some ''null''\<rparr>) example_request example_context =
       (Threw TypeError, [example_call])\<close>
  by code_simp

end
